theory Spec2Isabelle
  imports Complex_Main
begin

section \<open>Rank engine\<close>

text \<open>
  The configuration constants of the tracker.  The XP counter is a JavaScript number that
  every producer in the program keeps integral (\<open>parseInt\<close>, the seeded task and
  challenge tables), so it is an \<open>int\<close> here; the two progress quotients are reals.
\<close>

definition XP_PER_SUBRANK :: int where
  "XP_PER_SUBRANK = 500"

definition SUBRANKS :: int where
  "SUBRANKS = 5"

text \<open>The tier table, by key; only its length enters the computation.\<close>

definition TIERS :: "string list" where
  "TIERS = [''bronze'', ''silver'', ''gold'', ''platinum'', ''diamond'', ''master'',
            ''grandmaster'', ''top500'']"

definition tierTotalXP :: int where
  "tierTotalXP = XP_PER_SUBRANK * SUBRANKS"

definition cumulativeXPAtTierStart :: "int \<Rightarrow> int" where
  "cumulativeXPAtTierStart i = i * tierTotalXP"

definition maxXPAllTiers :: int where
  "maxXPAllTiers = cumulativeXPAtTierStart (int (length TIERS))"

text \<open>JavaScript's \<open>%\<close> truncates towards zero: the result has the sign of the dividend.\<close>

definition js_rem :: "int \<Rightarrow> int \<Rightarrow> int" where
  "js_rem a b = sgn a * (\<bar>a\<bar> mod \<bar>b\<bar>)"

record rank =
  tierIndex :: int
  subrank :: int
  withinXP :: int
  progress :: real
  progressWithinSubrank :: real

text \<open>The \<open>while\<close> loop of \<open>xpToRank\<close>, started at \<open>tierIndex = 0\<close>.\<close>

function tierLoop :: "int \<Rightarrow> int \<Rightarrow> int" where
  "tierLoop n i =
     (if i < int (length TIERS) \<and> n \<ge> cumulativeXPAtTierStart i + tierTotalXP
      then tierLoop n (i + 1)
      else i)"
  by pat_completeness auto
termination
  by (relation "measure (\<lambda>(n, i). nat (int (length TIERS) - i))") auto

declare tierLoop.simps [simp del]

definition xpToRank :: "int \<Rightarrow> rank" where
  "xpToRank xp =
     (let n = max 0 (min xp maxXPAllTiers);
          ti = tierLoop n 0
      in if ti \<ge> int (length TIERS)
         then \<lparr> tierIndex = int (length TIERS) - 1, subrank = 1,
                withinXP = XP_PER_SUBRANK * SUBRANKS, progress = 1,
                progressWithinSubrank = 1 \<rparr>
         else
           let start = cumulativeXPAtTierStart ti;
               withinTier = n - start;
               subrankProgress = real_of_int withinTier / real_of_int XP_PER_SUBRANK;
               sr = max 1 (SUBRANKS - \<lfloor>subrankProgress\<rfloor>);
               pws = real_of_int (js_rem withinTier XP_PER_SUBRANK) / real_of_int XP_PER_SUBRANK;
               pr = real_of_int withinTier / real_of_int tierTotalXP
           in \<lparr> tierIndex = ti, subrank = sr, withinXP = withinTier, progress = pr,
                progressWithinSubrank = pws \<rparr>)"

section \<open>Domain store\<close>

text \<open>
  The aggregates of the tracker, typed as the data model has them.  A React state setter
  called with an updater function applies it to the current value; the model applies each
  updater once, in call order, and passes the whole store through.  \<open>uid()\<close> draws on
  the random generator and the clock, so the fresh id is an argument.
\<close>

record task =
  task_id :: string
  task_label :: string
  task_xp :: int
  task_group :: "string option"

record daily_item =
  d_id :: string
  d_label :: string
  d_xp :: int
  d_done :: bool

record daily_slot =
  daily_date :: string
  daily_items :: "daily_item list"

record top_item =
  t_id :: string
  t_srcId :: "string option"
  t_label :: string
  t_xp :: int
  t_done :: bool

record top_slot =
  top_date :: string
  top_items :: "top_item list"

record todo =
  todo_id :: string
  todo_label :: string
  todo_done :: bool

record tracker =
  st_xp :: int
  st_tasks :: "task list"
  st_daily :: daily_slot
  st_top :: top_slot
  st_todos :: "todo list"

text \<open>\<open>setXP((v) => Math.max(0, Math.min(v + amount, maxXPAllTiers)))\<close>\<close>

definition addXP :: "int \<Rightarrow> tracker \<Rightarrow> tracker" where
  "addXP amount st = st\<lparr>st_xp := max 0 (min (st_xp st + amount) maxXPAllTiers)\<rparr>"

definition setXPExact :: "int \<Rightarrow> tracker \<Rightarrow> tracker" where
  "setXPExact val st = st\<lparr>st_xp := max 0 (min val maxXPAllTiers)\<rparr>"

definition resetSeason :: "tracker \<Rightarrow> tracker" where
  "resetSeason st = st\<lparr>st_xp := 0\<rparr>"

definition completeDaily :: "string \<Rightarrow> tracker \<Rightarrow> tracker" where
  "completeDaily i st =
     (let prev = st_daily st;
          items = map (\<lambda>d. if d_id d = i then d\<lparr>d_done := True\<rparr> else d) (daily_items prev);
          justCompleted = find (\<lambda>d. d_id d = i \<and> \<not> d_done d) (daily_items prev);
          st1 = (case justCompleted of Some d \<Rightarrow> addXP (d_xp d) st | None \<Rightarrow> st)
      in st1\<lparr>st_daily := prev\<lparr>daily_items := items\<rparr>\<rparr>)"

text \<open>
  \<open>String.prototype.trim\<close>.  A string is the UTF-8 encoding of the JavaScript string;
  \<open>trim\<close> strips the white space and line terminator code points from both ends: TAB,
  LF, VT, FF, CR, SPACE, U+00A0, U+1680, U+2000 to U+200A, U+2028, U+2029, U+202F, U+205F,
  U+3000 and U+FEFF.
\<close>

definition js_whitespace :: "string list" where
  "js_whitespace =
     [[CHR 0x09], [CHR 0x0A], [CHR 0x0B], [CHR 0x0C], [CHR 0x0D], [CHR 0x20],
      [CHR 0xC2, CHR 0xA0],
      [CHR 0xE1, CHR 0x9A, CHR 0x80],
      [CHR 0xE2, CHR 0x80, CHR 0x80], [CHR 0xE2, CHR 0x80, CHR 0x81],
      [CHR 0xE2, CHR 0x80, CHR 0x82], [CHR 0xE2, CHR 0x80, CHR 0x83],
      [CHR 0xE2, CHR 0x80, CHR 0x84], [CHR 0xE2, CHR 0x80, CHR 0x85],
      [CHR 0xE2, CHR 0x80, CHR 0x86], [CHR 0xE2, CHR 0x80, CHR 0x87],
      [CHR 0xE2, CHR 0x80, CHR 0x88], [CHR 0xE2, CHR 0x80, CHR 0x89],
      [CHR 0xE2, CHR 0x80, CHR 0x8A],
      [CHR 0xE2, CHR 0x80, CHR 0xA8], [CHR 0xE2, CHR 0x80, CHR 0xA9],
      [CHR 0xE2, CHR 0x80, CHR 0xAF],
      [CHR 0xE2, CHR 0x81, CHR 0x9F],
      [CHR 0xE3, CHR 0x80, CHR 0x80],
      [CHR 0xEF, CHR 0xBB, CHR 0xBF]]"

text \<open>Dropping, from the front, every leading occurrence of one of the given sequences.\<close>

function strip_leading :: "string list \<Rightarrow> string \<Rightarrow> string" where
  "strip_leading ws s =
     (case find (\<lambda>w. w \<noteq> [] \<and> take (length w) s = w) ws of
        Some w \<Rightarrow> strip_leading ws (drop (length w) s)
      | None \<Rightarrow> s)"
  by pat_completeness auto
termination
proof (relation "measure (\<lambda>(ws, s). length s)")
  show "wf (measure (\<lambda>(ws :: string list, s :: string). length s))"
    by simp
next
  fix ws :: "string list" and s w :: string
  assume "find (\<lambda>w. w \<noteq> [] \<and> take (length w) s = w) ws = Some w"
  then have w: "w \<noteq> []" "take (length w) s = w"
    by (auto simp: find_Some_iff)
  then have "s \<noteq> []"
    by auto
  with w(1) have "length (drop (length w) s) < length s"
    by simp
  then show "((ws, drop (length w) s), (ws, s)) \<in> measure (\<lambda>(ws, s). length s)"
    by simp
qed

declare strip_leading.simps [simp del]

definition js_trim :: "string \<Rightarrow> string" where
  "js_trim s =
     rev (strip_leading (map rev js_whitespace) (rev (strip_leading js_whitespace s)))"

definition addTopFromTask :: "string \<Rightarrow> string \<Rightarrow> tracker \<Rightarrow> tracker" where
  "addTopFromTask taskId fresh st =
     (case find (\<lambda>x. task_id x = taskId) (st_tasks st) of
        None \<Rightarrow> st
      | Some t \<Rightarrow>
          (let prev = st_top st in
           if length (top_items prev) \<ge> 5 then st
           else if list_ex (\<lambda>i. t_srcId i = Some (task_id t) \<and> t_label i = task_label t)
                     (top_items prev) then st
           else
             let item = \<lparr> t_id = fresh, t_srcId = Some (task_id t), t_label = task_label t,
                            t_xp = task_xp t, t_done = False \<rparr>
             in st\<lparr>st_top := prev\<lparr>top_items := top_items prev @ [item]\<rparr>\<rparr>))"

text \<open>
  \<open>addTopCustom(label, xpVal)\<close>: the second argument is what \<open>parseInt(xpVal, 10)\<close>
  returns, \<open>None\<close> for \<open>NaN\<close>; \<open>parseInt(..) || 1\<close> replaces \<open>NaN\<close> and 0 by 1.
\<close>

definition addTopCustom :: "string \<Rightarrow> int option \<Rightarrow> string \<Rightarrow> tracker \<Rightarrow> tracker" where
  "addTopCustom label xpVal fresh st =
     (if js_trim label = [] then st
      else
        let n = max 1 (case xpVal of None \<Rightarrow> 1 | Some v \<Rightarrow> if v = 0 then 1 else v);
            prev = st_top st
        in if length (top_items prev) \<ge> 5 then st
           else st\<lparr>st_top := prev\<lparr>top_items := top_items prev @
                  [\<lparr> t_id = fresh, t_srcId = None, t_label = js_trim label, t_xp = n,
                     t_done = False \<rparr>]\<rparr>\<rparr>)"

definition toggleTop :: "string \<Rightarrow> tracker \<Rightarrow> tracker" where
  "toggleTop i st =
     (let prev = st_top st;
          before = find (\<lambda>x. t_id x = i) (top_items prev);
          items = map (\<lambda>x. if t_id x = i then x\<lparr>t_done := \<not> t_done x\<rparr> else x) (top_items prev);
          st1 = (case before of
                   Some b \<Rightarrow> if \<not> t_done b then addXP (t_xp b) st else st
                 | None \<Rightarrow> st)
      in st1\<lparr>st_top := prev\<lparr>top_items := items\<rparr>\<rparr>)"

section \<open>JavaScript values\<close>

text \<open>
  The values that cross the boundary to the shared document and to an imported file are
  untyped.  Numbers are the integers (the XP counter, the millisecond clock); an object is
  the list of its own properties in insertion order, each key bound once.
\<close>

datatype jsval =
    JUndefined
  | JNull
  | JBool bool
  | JNum int
  | JStr string
  | JArr "jsval list"
  | JObj "(string \<times> jsval) list"

text \<open>Truthiness: \<open>undefined\<close>, \<open>null\<close>, \<open>false\<close>, \<open>0\<close> and \<open>""\<close> are falsy.\<close>

fun truthy :: "jsval \<Rightarrow> bool" where
  "truthy JUndefined = False"
| "truthy JNull = False"
| "truthy (JBool b) = b"
| "truthy (JNum n) = (n \<noteq> 0)"
| "truthy (JStr s) = (s \<noteq> [])"
| "truthy (JArr xs) = True"
| "truthy (JObj kvs) = True"

text \<open>\<open>a || b\<close> and \<open>a ?? b\<close>.\<close>

definition js_or :: "jsval \<Rightarrow> jsval \<Rightarrow> jsval" where
  "js_or a b = (if truthy a then a else b)"

definition nullish_or :: "jsval \<Rightarrow> jsval \<Rightarrow> jsval" where
  "nullish_or a b = (if a = JUndefined \<or> a = JNull then b else a)"

text \<open>
  Reading a named property \<open>v.k\<close> of a value other than \<open>undefined\<close> and \<open>null\<close>
  (on those two the read throws; every caller below guards it).  The keys read in this
  program are field names of the data model, which no primitive and no array carries.
\<close>

fun js_get :: "jsval \<Rightarrow> string \<Rightarrow> jsval" where
  "js_get (JObj kvs) k = (case map_of kvs k of Some v \<Rightarrow> v | None \<Rightarrow> JUndefined)"
| "js_get v k = JUndefined"

text \<open>The assignment \<open>out[k] = v\<close>: an existing key keeps its place, a new one goes last.\<close>

fun obj_put :: "string \<Rightarrow> jsval \<Rightarrow> (string \<times> jsval) list \<Rightarrow> (string \<times> jsval) list" where
  "obj_put k v [] = [(k, v)]"
| "obj_put k v ((k', v') # kvs) =
     (if k' = k then (k, v) # kvs else (k', v') # obj_put k v kvs)"

fun is_number :: "jsval \<Rightarrow> bool" where
  "is_number (JNum n) = True"
| "is_number v = False"

fun is_array :: "jsval \<Rightarrow> bool" where
  "is_array (JArr xs) = True"
| "is_array v = False"

subsection \<open>Decimal numerals and \<open>JSON.stringify\<close>\<close>

definition digit_char :: "nat \<Rightarrow> char" where
  "digit_char d = ''0123456789'' ! d"

function show_nat :: "nat \<Rightarrow> string" where
  "show_nat n = (if n < 10 then [digit_char n] else show_nat (n div 10) @ [digit_char (n mod 10)])"
  by pat_completeness auto
termination
  by (relation "measure id") auto

declare show_nat.simps [simp del]

definition show_int :: "int \<Rightarrow> string" where
  "show_int i = (if i < 0 then CHR ''-'' # show_nat (nat (- i)) else show_nat (nat i))"

fun js_join :: "string \<Rightarrow> string list \<Rightarrow> string" where
  "js_join sep [] = []"
| "js_join sep [x] = x"
| "js_join sep (x # y # ys) = x @ sep @ js_join sep (y # ys)"

text \<open>
  The escapes of a JSON string literal: the quote, the backslash and the control
  characters (the codes below 32, whose three high bits are clear).
\<close>

fun is_control :: "char \<Rightarrow> bool" where
  "is_control (Char b0 b1 b2 b3 b4 b5 b6 b7) \<longleftrightarrow> \<not> b5 \<and> \<not> b6 \<and> \<not> b7"

definition control_escapes :: "(char \<times> string) list" where
  "control_escapes =
     [(CHR 0x00, CHR 0x5C # ''u0000''),
      (CHR 0x01, CHR 0x5C # ''u0001''),
      (CHR 0x02, CHR 0x5C # ''u0002''),
      (CHR 0x03, CHR 0x5C # ''u0003''),
      (CHR 0x04, CHR 0x5C # ''u0004''),
      (CHR 0x05, CHR 0x5C # ''u0005''),
      (CHR 0x06, CHR 0x5C # ''u0006''),
      (CHR 0x07, CHR 0x5C # ''u0007''),
      (CHR 0x08, [CHR 0x5C, CHR ''b'']),
      (CHR 0x09, [CHR 0x5C, CHR ''t'']),
      (CHR 0x0A, [CHR 0x5C, CHR ''n'']),
      (CHR 0x0B, CHR 0x5C # ''u000b''),
      (CHR 0x0C, [CHR 0x5C, CHR ''f'']),
      (CHR 0x0D, [CHR 0x5C, CHR ''r'']),
      (CHR 0x0E, CHR 0x5C # ''u000e''),
      (CHR 0x0F, CHR 0x5C # ''u000f''),
      (CHR 0x10, CHR 0x5C # ''u0010''),
      (CHR 0x11, CHR 0x5C # ''u0011''),
      (CHR 0x12, CHR 0x5C # ''u0012''),
      (CHR 0x13, CHR 0x5C # ''u0013''),
      (CHR 0x14, CHR 0x5C # ''u0014''),
      (CHR 0x15, CHR 0x5C # ''u0015''),
      (CHR 0x16, CHR 0x5C # ''u0016''),
      (CHR 0x17, CHR 0x5C # ''u0017''),
      (CHR 0x18, CHR 0x5C # ''u0018''),
      (CHR 0x19, CHR 0x5C # ''u0019''),
      (CHR 0x1A, CHR 0x5C # ''u001a''),
      (CHR 0x1B, CHR 0x5C # ''u001b''),
      (CHR 0x1C, CHR 0x5C # ''u001c''),
      (CHR 0x1D, CHR 0x5C # ''u001d''),
      (CHR 0x1E, CHR 0x5C # ''u001e''),
      (CHR 0x1F, CHR 0x5C # ''u001f'')]"

definition json_escape :: "char \<Rightarrow> string" where
  "json_escape c =
     (if c = CHR 0x22 then [CHR 0x5C, CHR 0x22]
      else if c = CHR 0x5C then [CHR 0x5C, CHR 0x5C]
      else if is_control c
        then (case map_of control_escapes c of Some e \<Rightarrow> e | None \<Rightarrow> [c])
      else [c])"

definition json_quote :: "string \<Rightarrow> string" where
  "json_quote s = CHR 0x22 # concat (map json_escape s) @ [CHR 0x22]"

text \<open>
  \<open>JSON.stringify\<close> of a value in member position: a property whose value is
  \<open>undefined\<close> is left out of its object, an \<open>undefined\<close> array element is written
  \<open>null\<close>.  Every call in the program passes an object literal.
\<close>

function JSON_stringify :: "jsval \<Rightarrow> string" where
  "JSON_stringify JUndefined = ''null''"
| "JSON_stringify JNull = ''null''"
| "JSON_stringify (JBool b) = (if b then ''true'' else ''false'')"
| "JSON_stringify (JNum n) = show_int n"
| "JSON_stringify (JStr s) = json_quote s"
| "JSON_stringify (JArr xs) = ''['' @ js_join '','' (map JSON_stringify xs) @ '']''"
| "JSON_stringify (JObj kvs) =
     ''{'' @ js_join '',''
        (map (\<lambda>kv. json_quote (fst kv) @ '':'' @ JSON_stringify (snd kv))
           (filter (\<lambda>kv. snd kv \<noteq> JUndefined) kvs)) @ ''}''"
  by pat_completeness auto
termination
proof (relation "measure size")
  show "wf (measure (size :: jsval \<Rightarrow> nat))"
    by simp
next
  fix xs :: "jsval list" and x
  assume "x \<in> set xs"
  then have "size x < size (JArr xs)"
    by (induction xs) auto
  then show "(x, JArr xs) \<in> measure size"
    by simp
next
  fix kvs :: "(string \<times> jsval) list" and kv
  assume "kv \<in> set (filter (\<lambda>kv. snd kv \<noteq> JUndefined) kvs)"
  then have "kv \<in> set kvs"
    by simp
  then have "size (snd kv) < size (JObj kvs)"
    by (induction kvs) auto
  then show "(snd kv, JObj kvs) \<in> measure size"
    by simp
qed

text \<open>Whether \<open>undefined\<close> occurs anywhere in a value.\<close>

fun has_undefined :: "jsval \<Rightarrow> bool" where
  "has_undefined JUndefined = True"
| "has_undefined (JArr xs) = list_ex has_undefined xs"
| "has_undefined (JObj kvs) = list_ex (\<lambda>kv. has_undefined (snd kv)) kvs"
| "has_undefined v = False"

text \<open>Whether some object inside a value has a property whose value is \<open>undefined\<close>.\<close>

fun undefined_field :: "jsval \<Rightarrow> bool" where
  "undefined_field (JObj kvs) =
     list_ex (\<lambda>kv. snd kv = JUndefined \<or> undefined_field (snd kv)) kvs"
| "undefined_field (JArr xs) = list_ex undefined_field xs"
| "undefined_field v = False"

fun is_primitive :: "jsval \<Rightarrow> bool" where
  "is_primitive (JArr xs) = False"
| "is_primitive (JObj kvs) = False"
| "is_primitive v = True"

section \<open>Cloud sync engine of the tracker\<close>

text \<open>
  The five aggregates as React holds them, the \<open>fb\<close> ref (\<open>db\<close>, \<open>lastSaved\<close>,
  \<open>applying\<close>), the pending debounced write (its payload and the serialization it
  was started with) and whether the last run of the save effect returned its cleanup.  The
  subscription callback is created once, at mount, so the \<open>xp\<close> it compares against
  is the value the counter had then: \<open>xp_at_mount\<close>.
\<close>

record sync =
  sy_xp :: jsval
  sy_tasks :: jsval
  sy_daily :: jsval
  sy_top :: jsval
  sy_todos :: jsval
  xp_at_mount :: jsval
  fb_db :: bool
  fb_lastSaved :: string
  fb_applying :: bool
  saveTimer :: "(jsval \<times> string) option"
  save_cleanup :: bool
  cloudStatus :: string

text \<open>The object literal \<open>{ xp, tasks, daily, top, todos }\<close>.\<close>

definition aggregates :: "sync \<Rightarrow> (string \<times> jsval) list" where
  "aggregates st =
     [(''xp'', sy_xp st), (''tasks'', sy_tasks st), (''daily'', sy_daily st),
      (''top'', sy_top st), (''todos'', sy_todos st)]"

text \<open>
  What the snapshot handler records as \<open>lastSaved\<close>: the snapshot's fields, each absent
  one replaced by its default; \<open>today\<close> is \<open>todayKey()\<close>.
\<close>

definition snapshot_shape :: "string \<Rightarrow> jsval \<Rightarrow> (string \<times> jsval) list" where
  "snapshot_shape today data =
     [(''xp'', nullish_or (js_get data ''xp'') (JNum 0)),
      (''tasks'', nullish_or (js_get data ''tasks'') (JArr [])),
      (''daily'', nullish_or (js_get data ''daily'')
                    (JObj [(''date'', JStr today), (''items'', JArr [])])),
      (''top'', nullish_or (js_get data ''top'')
                  (JObj [(''date'', JStr today), (''items'', JArr [])])),
      (''todos'', nullish_or (js_get data ''todos'') (JObj [(''items'', JArr [])]))]"

text \<open>
  The \<open>onSnapshot\<close> callback; \<open>None\<close> is a snapshot of a document that does not
  exist, \<open>Some d\<close> carries \<open>snap.data()\<close>.
\<close>

definition onSnapshot :: "string \<Rightarrow> jsval option \<Rightarrow> sync \<Rightarrow> sync" where
  "onSnapshot today snap st =
     (case snap of
        None \<Rightarrow> st
      | Some d \<Rightarrow>
          (let data = js_or d (JObj []);
               s0 = st\<lparr>fb_applying := True\<rparr>;
               s1 = (if is_number (js_get data ''xp'') \<and> js_get data ''xp'' \<noteq> xp_at_mount st
                     then s0\<lparr>sy_xp := js_get data ''xp''\<rparr> else s0);
               s2 = (if is_array (js_get data ''tasks'')
                     then s1\<lparr>sy_tasks := js_get data ''tasks''\<rparr> else s1);
               s3 = (if truthy (js_get data ''daily'') \<and>
                        truthy (js_get (js_get data ''daily'') ''items'')
                     then s2\<lparr>sy_daily := js_get data ''daily''\<rparr> else s2);
               s4 = (if truthy (js_get data ''top'') \<and>
                        truthy (js_get (js_get data ''top'') ''items'')
                     then s3\<lparr>sy_top := js_get data ''top''\<rparr> else s3);
               s5 = (if truthy (js_get data ''todos'') \<and>
                        truthy (js_get (js_get data ''todos'') ''items'')
                     then s4\<lparr>sy_todos := js_get data ''todos''\<rparr> else s4)
           in s5\<lparr>fb_lastSaved := JSON_stringify (JObj (snapshot_shape today data)),
                 cloudStatus := ''connected''\<rparr>))"

text \<open>The callback of \<open>setTimeout(.., 0)\<close> that the snapshot handler leaves behind.\<close>

definition releaseApplying :: "sync \<Rightarrow> sync" where
  "releaseApplying st = st\<lparr>fb_applying := False\<rparr>"

text \<open>
  The cleanup that the save effect returns on the path that started a timer:
  \<open>clearTimeout(saveTimer.current)\<close>.  React calls the cleanup of the previous run
  before it runs the effect again.
\<close>

definition runCleanup :: "sync \<Rightarrow> sync" where
  "runCleanup st = (if save_cleanup st then st\<lparr>saveTimer := None\<rparr> else st)"

text \<open>
  The debounced-save effect, run after a render in which an aggregate changed: the cleanup
  of the previous run, then the body.  \<open>ts\<close> is the \<open>serverTimestamp()\<close> sentinel.
  A run that returns early returns no cleanup; a run that reaches the end starts the timer,
  recorded as the pending write, and returns the cleanup.
\<close>

definition saveEffect :: "jsval \<Rightarrow> sync \<Rightarrow> sync" where
  "saveEffect ts st =
     (let s0 = runCleanup st in
      if \<not> fb_db s0 then s0\<lparr>save_cleanup := False\<rparr>
      else if fb_applying s0 then s0\<lparr>save_cleanup := False\<rparr>
      else
        let simple = JSON_stringify (JObj (aggregates s0)) in
        if fb_lastSaved s0 = simple then s0\<lparr>save_cleanup := False\<rparr>
        else s0\<lparr>saveTimer := Some (JObj (aggregates s0 @ [(''updatedAt'', ts)]), simple),
                save_cleanup := True\<rparr>)"

text \<open>
  The timer firing: the payload goes to \<open>setDoc\<close>.  \<open>outcome\<close> is \<open>None\<close> when
  the write succeeds and carries the message of the exception when \<open>setDoc\<close> throws;
  the first component is what \<open>setDoc\<close> was handed.
\<close>

definition fireSave :: "string option \<Rightarrow> sync \<Rightarrow> jsval option \<times> sync" where
  "fireSave outcome st =
     (case saveTimer st of
        None \<Rightarrow> (None, st)
      | Some (payload, simple) \<Rightarrow>
          (Some payload,
           case outcome of
             None \<Rightarrow>
               st\<lparr>saveTimer := None, fb_lastSaved := simple, cloudStatus := ''connected''\<rparr>
           | Some msg \<Rightarrow>
               st\<lparr>saveTimer := None, cloudStatus := ''error: '' @ msg\<rparr>))"

text \<open>
  A snapshot that the handler applies in full: all five fields pass their guards, and the
  \<open>xp\<close> it carries is stored or is the local value already.
\<close>

definition applied_in_full :: "jsval \<Rightarrow> sync \<Rightarrow> bool" where
  "applied_in_full d st \<longleftrightarrow>
     is_number (js_get d ''xp'') \<and>
     (js_get d ''xp'' \<noteq> xp_at_mount st \<or> sy_xp st = js_get d ''xp'') \<and>
     is_array (js_get d ''tasks'') \<and>
     truthy (js_get d ''daily'') \<and> truthy (js_get (js_get d ''daily'') ''items'') \<and>
     truthy (js_get d ''top'') \<and> truthy (js_get (js_get d ''top'') ''items'') \<and>
     truthy (js_get d ''todos'') \<and> truthy (js_get (js_get d ''todos'') ''items'')"

subsection \<open>The task editor\<close>

text \<open>
  \<open>addTask\<close> of the task editor on the task array; \<open>xp\<close> is the number in the form
  (\<open>None\<close> for \<open>NaN\<close>), \<open>now\<close> is \<open>Date.now()\<close>.
\<close>

definition addTask :: "string \<Rightarrow> int option \<Rightarrow> string \<Rightarrow> int \<Rightarrow> jsval list \<Rightarrow> jsval list" where
  "addTask label xp grp now tasks =
     (if js_trim label = [] then tasks
      else tasks @
        [JObj [(''id'', JStr (show_int now)),
               (''label'', JStr (js_trim label)),
               (''xp'', JNum (max 1 (case xp of None \<Rightarrow> 1 | Some v \<Rightarrow> if v = 0 then 1 else v))),
               (''group'', if js_trim grp = [] then JUndefined else JStr (js_trim grp))]])"

section \<open>Leads\<close>

text \<open>A lead is an object; the collection is an array of leads.\<close>

type_synonym obj = "(string \<times> jsval) list"

definition obj_get :: "obj \<Rightarrow> string \<Rightarrow> jsval" where
  "obj_get l k = js_get (JObj l) k"

definition STATUSES :: "string list" where
  "STATUSES = [''New'', ''Contacted'', ''Qualified'', ''Proposal'', ''Won'', ''Lost'']"

definition PRIORITIES :: "string list" where
  "PRIORITIES = [''High'', ''Medium'', ''Low'']"

subsection \<open>\<open>sanitizeLead\<close>\<close>

text \<open>
  \<open>Object.entries\<close> of an array lists its elements under their indices.  The loop of
  \<open>sanitizeLead\<close> is a fold over the entries, assigning into \<open>out\<close>.
\<close>

definition array_entries :: "jsval list \<Rightarrow> (string \<times> jsval) list" where
  "array_entries xs = zip (map show_nat [0..<length xs]) xs"

function sanitizeLead :: "jsval \<Rightarrow> jsval" where
  "sanitizeLead JUndefined = JUndefined"
| "sanitizeLead JNull = JNull"
| "sanitizeLead (JBool b) = JBool b"
| "sanitizeLead (JNum n) = JNum n"
| "sanitizeLead (JStr s) = JStr s"
| "sanitizeLead (JObj kvs) =
     JObj (fold (\<lambda>kv out.
             case snd kv of
               JUndefined \<Rightarrow> out
             | JArr vs \<Rightarrow> obj_put (fst kv) (JArr (map sanitizeLead vs)) out
             | JObj ws \<Rightarrow> obj_put (fst kv) (sanitizeLead (JObj ws)) out
             | v \<Rightarrow> obj_put (fst kv) v out) kvs [])"
| "sanitizeLead (JArr xs) =
     JObj (fold (\<lambda>kv out.
             case snd kv of
               JUndefined \<Rightarrow> out
             | JArr vs \<Rightarrow> obj_put (fst kv) (JArr (map sanitizeLead vs)) out
             | JObj ws \<Rightarrow> obj_put (fst kv) (sanitizeLead (JObj ws)) out
             | v \<Rightarrow> obj_put (fst kv) v out) (array_entries xs) [])"
  by pat_completeness auto
termination
proof (relation "measure size")
  have member: "size (snd kv) < size (JObj kvs)" if "kv \<in> set kvs"
    for kv :: "string \<times> jsval" and kvs
    using that by (induction kvs) auto
  have element: "size x < size (JArr xs)" if "x \<in> set xs" for x :: jsval and xs
    using that by (induction xs) auto
  have entry: "size (snd kv) < size (JArr xs)" if "kv \<in> set (array_entries xs)"
    for kv :: "string \<times> jsval" and xs
  proof -
    from that have "(fst kv, snd kv) \<in> set (zip (map show_nat [0..<length xs]) xs)"
      by (simp add: array_entries_def)
    then have "snd kv \<in> set xs"
      by (rule set_zip_rightD)
    then show ?thesis by (rule element)
  qed
  show "wf (measure (size :: jsval \<Rightarrow> nat))"
    by simp
  show "(x, JObj kvs) \<in> measure size"
    if "kv \<in> set kvs" and "snd kv = JArr vs" and "x \<in> set vs"
    for kvs :: "(string \<times> jsval) list" and kv :: "string \<times> jsval" and vs x
    using member [OF that(1)] element [OF that(3)] that(2) by simp
  show "(JObj ws, JObj kvs) \<in> measure size"
    if "kv \<in> set kvs" and "snd kv = JObj ws"
    for kvs :: "(string \<times> jsval) list" and kv :: "string \<times> jsval" and ws
    using member [OF that(1)] that(2) by simp
  show "(x, JArr xs) \<in> measure size"
    if "kv \<in> set (array_entries xs)" and "snd kv = JArr vs" and "x \<in> set vs"
    for xs :: "jsval list" and kv :: "string \<times> jsval" and vs x
    using entry [OF that(1)] element [OF that(3)] that(2) by simp
  show "(JObj ws, JArr xs) \<in> measure size"
    if "kv \<in> set (array_entries xs)" and "snd kv = JObj ws"
    for xs :: "jsval list" and kv :: "string \<times> jsval" and ws
    using entry [OF that(1)] that(2) by simp
qed

text \<open>\<open>sanitizeLeads\<close>: \<open>filter(Boolean)\<close> drops the falsy elements.\<close>

definition sanitizeLeads :: "jsval \<Rightarrow> jsval list" where
  "sanitizeLeads arr =
     map sanitizeLead (filter truthy (case arr of JArr xs \<Rightarrow> xs | _ \<Rightarrow> []))"

text \<open>The payload of the leads page's debounced write.\<close>

definition leadsPayload :: "jsval \<Rightarrow> obj list \<Rightarrow> jsval" where
  "leadsPayload ts leads =
     JObj [(''leads'', JArr (sanitizeLeads (JArr (map JObj leads)))), (''leadsUpdatedAt'', ts)]"

subsection \<open>Host functions\<close>

text \<open>
  What the import takes from the runtime: \<open>JSON.parse\<close> (\<open>None\<close> when it throws),
  \<open>Number\<close> and \<open>String\<close> on the values where they do real work, the ids that
  \<open>uid()\<close> returns and the readings of \<open>Date.now()\<close>, both by call.
\<close>

record host =
  JSON_parse :: "string \<Rightarrow> jsval option"
  Number_of :: "jsval \<Rightarrow> int option"
  String_of :: "jsval \<Rightarrow> string"
  uid :: "nat \<Rightarrow> string"
  Date_now :: "nat \<Rightarrow> int"

text \<open>\<open>String(v)\<close> and \<open>Number(v)\<close>; \<open>None\<close> is \<open>NaN\<close>.\<close>

definition js_String :: "host \<Rightarrow> jsval \<Rightarrow> string" where
  "js_String h v = (case v of JStr s \<Rightarrow> s | _ \<Rightarrow> String_of h v)"

definition js_Number :: "host \<Rightarrow> jsval \<Rightarrow> int option" where
  "js_Number h v =
     (case v of
        JNum n \<Rightarrow> Some n
      | JUndefined \<Rightarrow> None
      | JNull \<Rightarrow> Some 0
      | JBool b \<Rightarrow> Some (if b then 1 else 0)
      | _ \<Rightarrow> Number_of h v)"

text \<open>\<open>xs.includes(v)\<close> on an array of strings.\<close>

definition js_includes :: "string list \<Rightarrow> jsval \<Rightarrow> bool" where
  "js_includes xs v = (case v of JStr s \<Rightarrow> s \<in> set xs | _ \<Rightarrow> False)"

subsection \<open>Ordering the collection\<close>

text \<open>\<open>order.indexOf(v)\<close>, \<open>-1\<close> when absent.\<close>

fun index_from :: "int \<Rightarrow> string list \<Rightarrow> string \<Rightarrow> int" where
  "index_from i [] s = - 1"
| "index_from i (x # xs) s = (if x = s then i else index_from (i + 1) xs s)"

definition js_indexOf :: "string list \<Rightarrow> jsval \<Rightarrow> int" where
  "js_indexOf xs v = (case v of JStr s \<Rightarrow> index_from 0 xs s | _ \<Rightarrow> - 1)"

text \<open>\<open>p[v]\<close> for \<open>p = { High: 0, Medium: 1, Low: 2 }\<close>; \<open>None\<close> when it is no number.\<close>

definition priority_rank :: "host \<Rightarrow> jsval \<Rightarrow> int option" where
  "priority_rank h v = map_of [(''High'', 0), (''Medium'', 1), (''Low'', 2)] (js_String h v)"

text \<open>The comparator \<open>sortLeads\<close>; \<open>None\<close> is \<open>NaN\<close>.\<close>

definition sortLeads :: "host \<Rightarrow> obj \<Rightarrow> obj \<Rightarrow> int option" where
  "sortLeads h a b =
     (let sdiff = js_indexOf STATUSES (obj_get a ''status'') -
                  js_indexOf STATUSES (obj_get b ''status'')
      in if sdiff \<noteq> 0 then Some sdiff
         else
           case (priority_rank h (obj_get a ''priority''), priority_rank h (obj_get b ''priority'')) of
             (Some pa, Some pb) \<Rightarrow>
               if pa - pb \<noteq> 0 then Some (pa - pb)
               else (case (js_Number h (obj_get b ''updatedAt''),
                           js_Number h (obj_get a ''updatedAt'')) of
                       (Some ub, Some ua) \<Rightarrow> Some (ub - ua)
                     | _ \<Rightarrow> None)
           | _ \<Rightarrow> None)"

text \<open>
  \<open>Array.prototype.sort\<close> with a comparator: the sort is stable and reads a \<open>NaN\<close>
  result as 0, so for a comparator that orders consistently its result is that of the
  stable insertion sort; an element moves behind another only on a positive result.
\<close>

fun insert_by :: "('a \<Rightarrow> 'a \<Rightarrow> int option) \<Rightarrow> 'a \<Rightarrow> 'a list \<Rightarrow> 'a list" where
  "insert_by cmp x [] = [x]"
| "insert_by cmp x (y # ys) =
     (if (case cmp x y of Some c \<Rightarrow> c > 0 | None \<Rightarrow> False)
      then y # insert_by cmp x ys else x # y # ys)"

definition js_sort :: "('a \<Rightarrow> 'a \<Rightarrow> int option) \<Rightarrow> 'a list \<Rightarrow> 'a list" where
  "js_sort cmp xs = foldr (insert_by cmp) xs []"

subsection \<open>Import and update\<close>

datatype js_error = TypeError | SyntaxError

text \<open>
  The object that the import builds from row \<open>d\<close>, the \<open>i\<close>-th of the file.  Reading a
  property of \<open>null\<close> or \<open>undefined\<close> throws, which \<open>cleanRows\<close> accounts for.
\<close>

definition cleanRow :: "host \<Rightarrow> nat \<Rightarrow> jsval \<Rightarrow> obj" where
  "cleanRow h i d =
     [(''id'', js_or (js_get d ''id'') (JStr (uid h i))),
      (''name'', JStr (js_String h (js_or (js_get d ''name'') (JStr [])))),
      (''business'', js_or (js_get d ''business'') JUndefined),
      (''email'', js_or (js_get d ''email'') JUndefined),
      (''phone'', js_or (js_get d ''phone'') JUndefined),
      (''website'', js_or (js_get d ''website'') JUndefined),
      (''status'', if js_includes STATUSES (js_get d ''status'')
                   then js_get d ''status'' else JStr ''New''),
      (''priority'', if js_includes PRIORITIES (js_get d ''priority'')
                     then js_get d ''priority'' else JStr ''Medium''),
      (''source'', js_or (js_get d ''source'') JUndefined),
      (''notes'', js_or (js_get d ''notes'') JUndefined),
      (''createdAt'', JNum (case js_Number h (js_get d ''createdAt'') of
                             Some n \<Rightarrow> if n = 0 then Date_now h (2 * i) else n
                           | None \<Rightarrow> Date_now h (2 * i))),
      (''updatedAt'', JNum (case js_Number h (js_get d ''updatedAt'') of
                             Some n \<Rightarrow> if n = 0 then Date_now h (2 * i + 1) else n
                           | None \<Rightarrow> Date_now h (2 * i + 1)))]"

fun cleanRows :: "host \<Rightarrow> nat \<Rightarrow> jsval list \<Rightarrow> js_error + obj list" where
  "cleanRows h i [] = Inr []"
| "cleanRows h i (d # ds) =
     (if d = JNull \<or> d = JUndefined then Inl TypeError
      else case cleanRows h (Suc i) ds of
             Inl e \<Rightarrow> Inl e
           | Inr cs \<Rightarrow> Inr (cleanRow h i d # cs))"

text \<open>
  The \<open>onload\<close> handler of the import: \<open>file\<close> is the text of the chosen file, if one
  was chosen.  An exception anywhere inside the \<open>try\<close> leaves the collection alone.
\<close>

definition onImportJSON :: "host \<Rightarrow> string option \<Rightarrow> obj list \<Rightarrow> obj list" where
  "onImportJSON h file leads =
     (case file of
        None \<Rightarrow> leads
      | Some content \<Rightarrow>
          (case JSON_parse h content of
             None \<Rightarrow> leads
           | Some data \<Rightarrow>
               (case data of
                  JArr rows \<Rightarrow>
                    (case cleanRows h 0 rows of
                       Inl e \<Rightarrow> leads
                     | Inr clean \<Rightarrow> js_sort (sortLeads h) clean)
                | _ \<Rightarrow> leads)))"

text \<open>The object spread \<open>{ ...a, ...b }\<close> copies the properties of each in turn.\<close>

definition spread_into :: "obj \<Rightarrow> obj \<Rightarrow> obj" where
  "spread_into src out = fold (\<lambda>kv acc. obj_put (fst kv) (snd kv) acc) src out"

definition updateLead :: "string \<Rightarrow> obj \<Rightarrow> int \<Rightarrow> obj list \<Rightarrow> obj list" where
  "updateLead i patch now prev =
     map (\<lambda>l. if obj_get l ''id'' = JStr i
              then obj_put ''updatedAt'' (JNum now) (spread_into patch (spread_into l []))
              else l) prev"

section \<open>Example stores\<close>

definition example_tracker :: tracker where
  "example_tracker =
     \<lparr> st_xp = 100, st_tasks = [],
       st_daily = \<lparr> daily_date = ''2024-05-01'',
                    daily_items =
                      [\<lparr> d_id = ''dc1'', d_label = ''Send 3 personalized outreach messages'',
                         d_xp = 35, d_done = False \<rparr>,
                       \<lparr> d_id = ''dc2'', d_label = ''Reply to all client emails before noon'',
                         d_xp = 25, d_done = True \<rparr>] \<rparr>,
       st_top = \<lparr> top_date = ''2024-05-01'', top_items = [] \<rparr>,
       st_todos = [] \<rparr>"

definition example_top :: tracker where
  "example_top =
     \<lparr> st_xp = 100,
       st_tasks = [\<lparr> task_id = ''close'', task_label = ''Close a new client'', task_xp = 50,
                     task_group = Some ''Sales'' \<rparr>],
       st_daily = \<lparr> daily_date = ''2024-05-01'', daily_items = [] \<rparr>,
       st_top = \<lparr> top_date = ''2024-05-01'',
                  top_items =
                    [\<lparr> t_id = ''a'', t_srcId = None, t_label = ''Call the printer'', t_xp = 25,
                       t_done = False \<rparr>,
                     \<lparr> t_id = ''b'', t_srcId = None, t_label = ''Send the invoice'', t_xp = 10,
                       t_done = True \<rparr>,
                     \<lparr> t_id = ''c'', t_srcId = None, t_label = ''Draft the proposal'', t_xp = 40,
                       t_done = False \<rparr>,
                     \<lparr> t_id = ''d'', t_srcId = None, t_label = ''Update the site'', t_xp = 15,
                       t_done = False \<rparr>,
                     \<lparr> t_id = ''e'', t_srcId = None, t_label = ''Book the venue'', t_xp = 20,
                       t_done = False \<rparr>] \<rparr>,
       st_todos = [] \<rparr>"

text \<open>A store on a device, a document that carries all five aggregates, and one without \<open>xp\<close>.\<close>

definition local_store :: sync where
  "local_store =
     \<lparr> sy_xp = JNum 10, sy_tasks = JArr [],
       sy_daily = JObj [(''date'', JStr ''2024-05-01''), (''items'', JArr [])],
       sy_top = JObj [(''date'', JStr ''2024-05-01''), (''items'', JArr [])],
       sy_todos = JObj [(''items'', JArr [])],
       xp_at_mount = JNum 10, fb_db = True, fb_lastSaved = [], fb_applying = False,
       saveTimer = None, save_cleanup = False, cloudStatus = ''connecting'' \<rparr>"

definition full_doc :: jsval where
  "full_doc =
     JObj [(''xp'', JNum 40),
           (''tasks'', JArr [JObj [(''id'', JStr ''close''), (''xp'', JNum 50)]]),
           (''daily'', JObj [(''date'', JStr ''2024-05-01''), (''items'', JArr [])]),
           (''top'', JObj [(''date'', JStr ''2024-05-01''), (''items'', JArr [])]),
           (''todos'', JObj [(''items'', JArr [])])]"

definition partial_doc :: jsval where
  "partial_doc =
     JObj [(''tasks'', JArr [JObj [(''id'', JStr ''close''), (''xp'', JNum 50)]]),
           (''daily'', JObj [(''date'', JStr ''2024-05-01''), (''items'', JArr [])]),
           (''top'', JObj [(''date'', JStr ''2024-05-01''), (''items'', JArr [])]),
           (''todos'', JObj [(''items'', JArr [])])]"

definition server_ts :: jsval where
  "server_ts = JObj [(''_methodName'', JStr ''serverTimestamp'')]"

text \<open>Rows of an import file, and a host that reads three file texts.\<close>

definition good_row :: jsval where
  "good_row =
     JObj [(''id'', JStr ''a''), (''name'', JStr ''Ann''), (''status'', JStr ''Won''),
           (''priority'', JStr ''High''), (''createdAt'', JNum 5), (''updatedAt'', JNum 6)]"

definition bad_row :: jsval where
  "bad_row = JObj [(''name'', JStr ''Bob''), (''status'', JStr ''Hot''), (''priority'', JStr ''Urgent'')]"

definition demo_host :: host where
  "demo_host =
     \<lparr> JSON_parse = (\<lambda>s. if s = ''[good, bad]'' then Some (JArr [good_row, bad_row])
                          else if s = ''[good, null]'' then Some (JArr [good_row, JNull])
                          else if s = ''{}'' then Some (JObj [])
                          else None),
       Number_of = (\<lambda>v. None),
       String_of = (\<lambda>v. []),
       uid = (\<lambda>i. ''u'' @ show_nat i),
       Date_now = (\<lambda>k. 1000 + int k) \<rparr>"

definition ann :: obj where
  "ann = [(''id'', JStr ''a''), (''name'', JStr ''Ann''), (''status'', JStr ''Won''),
          (''priority'', JStr ''High''), (''createdAt'', JNum 5), (''updatedAt'', JNum 6)]"

definition bob :: obj where
  "bob = [(''id'', JStr ''b''), (''name'', JStr ''Bob''), (''status'', JStr ''New''),
          (''priority'', JStr ''Medium''), (''createdAt'', JNum 7), (''updatedAt'', JNum 7)]"

text \<open>The draft of the edit form for \<open>ann\<close>, with the status changed.\<close>

definition ann_draft :: obj where
  "ann_draft = [(''id'', JStr ''a''), (''name'', JStr ''Ann''), (''status'', JStr ''Lost''),
                (''priority'', JStr ''High''), (''createdAt'', JNum 5), (''updatedAt'', JNum 6)]"

section \<open>Properties\<close>

subsection \<open>Facts about the rank engine\<close>

lemma rank_constants:
  "tierTotalXP = 2500" "maxXPAllTiers = 20000" "int (length TIERS) = 8"
  "cumulativeXPAtTierStart i = i * 2500"
  by (simp_all add: tierTotalXP_def maxXPAllTiers_def cumulativeXPAtTierStart_def
      XP_PER_SUBRANK_def SUBRANKS_def TIERS_def)

lemma tierLoop_unfold:
  "tierLoop n i = (if i < 8 \<and> n \<ge> i * 2500 + 2500 then tierLoop n (i + 1) else i)"
  by (subst tierLoop.simps) (simp add: rank_constants)

lemma tierLoop_closed:
  "0 \<le> i \<Longrightarrow> i \<le> 8 \<Longrightarrow> i * 2500 \<le> n \<Longrightarrow> tierLoop n i = min 8 (n div 2500)"
proof (induction n i rule: tierLoop.induct)
  case (1 n i)
  show ?case
  proof (cases "i < 8 \<and> n \<ge> i * 2500 + 2500")
    case True
    then have "tierLoop n (i + 1) = min 8 (n div 2500)"
      using 1 by (intro "1.IH") (auto simp: rank_constants)
    with True show ?thesis
      by (subst tierLoop_unfold) simp
  next
    case False
    then have "tierLoop n i = i"
      by (subst tierLoop_unfold) auto
    moreover have "min 8 (n div 2500) = i"
      using False 1(2,3,4) by (auto simp: min_def)
    ultimately show ?thesis by simp
  qed
qed

lemma xpToRank_top:
  "xpToRank 20000 =
     \<lparr> tierIndex = 7, subrank = 1, withinXP = 2500, progress = 1, progressWithinSubrank = 1 \<rparr>"
proof -
  have "tierLoop 20000 0 = 8"
    by (subst tierLoop_closed) simp_all
  then show ?thesis
    by (simp add: xpToRank_def rank_constants XP_PER_SUBRANK_def SUBRANKS_def)
qed

lemma xpToRank_below:
  assumes "0 \<le> n" "n < 20000"
  shows "xpToRank n =
     \<lparr> tierIndex = n div 2500, subrank = 5 - (n mod 2500) div 500, withinXP = n mod 2500,
       progress = real_of_int (n mod 2500) / 2500,
       progressWithinSubrank = real_of_int ((n mod 2500) mod 500) / 500 \<rparr>"
proof -
  have loop: "tierLoop n 0 = n div 2500"
    using assms by (subst tierLoop_closed) (simp_all add: min_def)
  have lt: "n div 2500 < 8"
    using assms by simp
  have within: "n - n div 2500 * 2500 = n mod 2500"
    by (simp add: minus_div_mult_eq_mod)
  have fl: "\<lfloor>real_of_int (n mod 2500) / 500\<rfloor> = (n mod 2500) div 500"
    using floor_divide_of_int_eq [of "n mod 2500" 500, where ?'a = real] by simp
  have sr: "max 1 (5 - (n mod 2500) div 500) = 5 - (n mod 2500) div 500"
  proof -
    have "n mod 2500 < 2500" by simp
    then have "(n mod 2500) div 500 \<le> 4" by linarith
    then show ?thesis by simp
  qed
  have nn: "0 \<le> n mod 2500" by simp
  have rem: "js_rem (n mod 2500) 500 = (n mod 2500) mod 500"
  proof (cases "n mod 2500 = 0")
    case True
    then show ?thesis by (simp add: js_rem_def)
  next
    case False
    with nn have "0 < n mod 2500" by linarith
    then show ?thesis by (simp add: js_rem_def)
  qed
  have clamp: "max 0 (min n maxXPAllTiers) = n"
    using assms by (simp add: rank_constants)
  have start: "cumulativeXPAtTierStart (n div 2500) = n div 2500 * 2500"
    by (simp add: rank_constants)
  show ?thesis
    unfolding xpToRank_def Let_def clamp loop start within
    using lt by (simp add: rank_constants XP_PER_SUBRANK_def SUBRANKS_def fl sr rem)
qed

subsection \<open>Rank boundary and monotonicity\<close>

text \<open>
  C1.  With eight tiers, five subranks per tier and 500 XP per subrank the ladder ends at
  20000 XP.  At that total the rank is the last tier, subrank 1, with both progress values
  equal to 1; at 0 XP it is the first tier, the entry subrank (the number of subranks per
  tier), with both progress values equal to 0.
\<close>

theorem xpToRank_boundary:
  "int (length TIERS) = 8 \<and> SUBRANKS = 5 \<and> XP_PER_SUBRANK = 500 \<and> maxXPAllTiers = 20000 \<and>
   tierIndex (xpToRank maxXPAllTiers) = int (length TIERS) - 1 \<and>
   subrank (xpToRank maxXPAllTiers) = 1 \<and>
   progress (xpToRank maxXPAllTiers) = 1 \<and>
   progressWithinSubrank (xpToRank maxXPAllTiers) = 1 \<and>
   tierIndex (xpToRank 0) = 0 \<and>
   subrank (xpToRank 0) = SUBRANKS \<and>
   progress (xpToRank 0) = 0 \<and>
   progressWithinSubrank (xpToRank 0) = 0"
  by (simp add: xpToRank_top xpToRank_below rank_constants SUBRANKS_def XP_PER_SUBRANK_def)

text \<open>
  C2.  For XP totals \<open>0 \<le> a < b \<le> maxXP\<close> the tier index of \<open>a\<close> is at most that
  of \<open>b\<close>, and when both fall in the same tier the subrank of \<open>a\<close> is at least that of
  \<open>b\<close>: the subrank counts down as XP grows.
\<close>

theorem xpToRank_monotone:
  assumes "0 \<le> a" and "a < b" and "b \<le> maxXPAllTiers"
  shows "tierIndex (xpToRank a) \<le> tierIndex (xpToRank b) \<and>
         (tierIndex (xpToRank a) = tierIndex (xpToRank b) \<longrightarrow>
            subrank (xpToRank a) \<ge> subrank (xpToRank b))"
proof -
  have a: "0 \<le> a" "a < 20000"
    using assms by (simp_all add: rank_constants)
  have ra: "tierIndex (xpToRank a) = a div 2500"
           "subrank (xpToRank a) = 5 - (a mod 2500) div 500"
    using a by (simp_all add: xpToRank_below)
  have a7: "a div 2500 \<le> 7"
    using a by simp
  have a4: "(a mod 2500) div 500 \<le> 4"
  proof -
    have "a mod 2500 < 2500" by simp
    then show ?thesis by linarith
  qed
  show ?thesis
  proof (cases "b = 20000")
    case True
    then show ?thesis
      using a7 a4 by (simp add: xpToRank_top ra)
  next
    case False
    then have b: "0 \<le> b" "b < 20000"
      using assms by (simp_all add: rank_constants)
    have rb: "tierIndex (xpToRank b) = b div 2500"
             "subrank (xpToRank b) = 5 - (b mod 2500) div 500"
      using b by (simp_all add: xpToRank_below)
    have le: "a div 2500 \<le> b div 2500"
      using assms(2) by (simp add: zdiv_mono1)
    have "(a mod 2500) div 500 \<le> (b mod 2500) div 500" if eq: "a div 2500 = b div 2500"
    proof -
      have "a = 2500 * (a div 2500) + a mod 2500" "b = 2500 * (b div 2500) + b mod 2500"
        by simp_all
      with eq assms(2) have "a mod 2500 \<le> b mod 2500"
        by linarith
      then show ?thesis by (simp add: zdiv_mono1)
    qed
    with le show ?thesis
      by (simp add: ra rb)
  qed
qed

theorem xpToRank_monotone_witness:
  "(0::int) \<le> 2700 \<and> (2700::int) < 3300 \<and> 3300 \<le> maxXPAllTiers \<and>
   tierIndex (xpToRank 2700) \<le> tierIndex (xpToRank 3300) \<and>
   tierIndex (xpToRank 2700) = tierIndex (xpToRank 3300) \<and>
   subrank (xpToRank 2700) \<ge> subrank (xpToRank 3300)"
  using xpToRank_monotone [of 2700 3300] by (simp add: rank_constants xpToRank_below)

subsection \<open>Daily challenges\<close>

lemma find_undone_after:
  "find (\<lambda>d. d_id d = i \<and> \<not> d_done d)
     (map (\<lambda>d. if d_id d = i then d\<lparr>d_done := True\<rparr> else d) xs) = None"
  by (induction xs) auto

lemma mark_done_twice:
  "map (\<lambda>d. if d_id d = i then d\<lparr>d_done := True\<rparr> else d)
     (map (\<lambda>d. if d_id d = i then d\<lparr>d_done := True\<rparr> else d) xs) =
   map (\<lambda>d. if d_id d = i then d\<lparr>d_done := True\<rparr> else d) xs"
  by (induction xs) auto

lemma mark_done_noop:
  "find (\<lambda>d. d_id d = i \<and> \<not> d_done d) xs = None \<Longrightarrow>
   map (\<lambda>d. if d_id d = i then d\<lparr>d_done := True\<rparr> else d) xs = xs"
  by (induction xs) (auto split: if_splits)

lemma completeDaily_noop:
  "find (\<lambda>d. d_id d = i \<and> \<not> d_done d) (daily_items (st_daily st)) = None \<Longrightarrow>
   completeDaily i st = st"
  by (simp add: completeDaily_def Let_def mark_done_noop)

lemma completeDaily_items:
  "daily_items (st_daily (completeDaily i st)) =
   map (\<lambda>d. if d_id d = i then d\<lparr>d_done := True\<rparr> else d) (daily_items (st_daily st))"
  by (simp add: completeDaily_def Let_def)

lemma completeDaily_xp:
  "find (\<lambda>d. d_id d = i \<and> \<not> d_done d) (daily_items (st_daily st)) = Some d \<Longrightarrow>
   st_xp (completeDaily i st) = max 0 (min (st_xp st + d_xp d) maxXPAllTiers)"
  by (simp add: completeDaily_def Let_def addXP_def)

lemma marked_all_done:
  "x \<in> set (map (\<lambda>d. if d_id d = i then d\<lparr>d_done := True\<rparr> else d) xs) \<Longrightarrow>
   d_id x = i \<Longrightarrow> d_done x"
proof (induction xs)
  case Nil
  then show ?case by simp
next
  case (Cons a xs)
  show ?case
  proof (cases "x = (if d_id a = i then a\<lparr>d_done := True\<rparr> else a)")
    case True
    with Cons.prems(2) show ?thesis
      by (cases "d_id a = i") simp_all
  next
    case False
    with Cons.prems(1) have "x \<in> set (map (\<lambda>d. if d_id d = i then d\<lparr>d_done := True\<rparr> else d) xs)"
      by simp
    then show ?thesis
      using Cons.IH Cons.prems(2) by blast
  qed
qed

text \<open>
  C3.  Completing a daily challenge twice grants its XP once.  The second call leaves the
  whole store as the first call left it.  When the id names an item that is not done yet,
  the first call marks every item of that id done and passes the XP of the first such item
  to \<open>addXP\<close>: the total becomes \<open>max 0 (min (xp + item.xp) maxXP)\<close>, which is
  \<open>xp + item.xp\<close> whenever that sum lies on the ladder; after the second call the total
  is still that value.  A call that finds no undone item of that id changes nothing.
\<close>

theorem completeDaily_grants_once:
  "completeDaily i (completeDaily i st) = completeDaily i st \<and>
   (find (\<lambda>d. d_id d = i \<and> \<not> d_done d) (daily_items (st_daily st)) = None \<longrightarrow>
      completeDaily i st = st) \<and>
   (\<forall>d. find (\<lambda>d. d_id d = i \<and> \<not> d_done d) (daily_items (st_daily st)) = Some d \<longrightarrow>
      st_xp (completeDaily i st) = max 0 (min (st_xp st + d_xp d) maxXPAllTiers) \<and>
      (0 \<le> st_xp st + d_xp d \<and> st_xp st + d_xp d \<le> maxXPAllTiers \<longrightarrow>
         st_xp (completeDaily i st) = st_xp st + d_xp d) \<and>
      daily_items (st_daily (completeDaily i st)) =
        map (\<lambda>x. if d_id x = i then x\<lparr>d_done := True\<rparr> else x) (daily_items (st_daily st)) \<and>
      (\<forall>x \<in> set (daily_items (st_daily (completeDaily i st))). d_id x = i \<longrightarrow> d_done x) \<and>
      st_xp (completeDaily i (completeDaily i st)) = max 0 (min (st_xp st + d_xp d) maxXPAllTiers))"
proof (intro conjI allI impI ballI)
  show "completeDaily i (completeDaily i st) = completeDaily i st"
    by (rule completeDaily_noop) (simp add: completeDaily_items find_undone_after)
  then show "st_xp (completeDaily i (completeDaily i st)) =
             max 0 (min (st_xp st + d_xp d) maxXPAllTiers)"
    if "find (\<lambda>d. d_id d = i \<and> \<not> d_done d) (daily_items (st_daily st)) = Some d" for d
    using that by (simp add: completeDaily_xp)
  show "d_done x"
    if "x \<in> set (daily_items (st_daily (completeDaily i st)))" and "d_id x = i" for x
  proof -
    from that(1)
    have "x \<in> set (map (\<lambda>d. if d_id d = i then d\<lparr>d_done := True\<rparr> else d)
                     (daily_items (st_daily st)))"
      by (simp only: completeDaily_items)
    then show ?thesis
      using that(2) by (rule marked_all_done)
  qed
qed (simp_all add: completeDaily_noop completeDaily_xp completeDaily_items)


theorem completeDaily_grants_once_witness:
  "find (\<lambda>d. d_id d = ''dc1'' \<and> \<not> d_done d) (daily_items (st_daily example_tracker)) =
     Some \<lparr> d_id = ''dc1'', d_label = ''Send 3 personalized outreach messages'',
            d_xp = 35, d_done = False \<rparr> \<and>
   st_xp (completeDaily ''dc1'' example_tracker) = 135 \<and>
   st_xp (completeDaily ''dc1'' (completeDaily ''dc1'' example_tracker)) = 135 \<and>
   completeDaily ''dc1'' (completeDaily ''dc1'' example_tracker) =
     completeDaily ''dc1'' example_tracker"
  using completeDaily_grants_once [of "''dc1''" example_tracker]
  by (simp add: example_tracker_def rank_constants)

subsection \<open>Top tasks\<close>

lemma toggleTop_items:
  "top_items (st_top (toggleTop i st)) =
   map (\<lambda>x. if t_id x = i then x\<lparr>t_done := \<not> t_done x\<rparr> else x) (top_items (st_top st))"
  by (simp add: toggleTop_def Let_def)

lemma toggleTop_xp_grant:
  "find (\<lambda>x. t_id x = i) (top_items (st_top st)) = Some b \<Longrightarrow> \<not> t_done b \<Longrightarrow>
   st_xp (toggleTop i st) = max 0 (min (st_xp st + t_xp b) maxXPAllTiers)"
  by (simp add: toggleTop_def Let_def addXP_def)

lemma toggleTop_xp_keep:
  "find (\<lambda>x. t_id x = i) (top_items (st_top st)) = Some b \<Longrightarrow> t_done b \<Longrightarrow>
   st_xp (toggleTop i st) = st_xp st"
  by (simp add: toggleTop_def Let_def)

lemma flip_noop:
  "find (\<lambda>x. t_id x = i) xs = None \<Longrightarrow>
   map (\<lambda>x. if t_id x = i then x\<lparr>t_done := \<not> t_done x\<rparr> else x) xs = xs"
  by (induction xs) (auto split: if_splits)

lemma toggleTop_absent:
  "find (\<lambda>x. t_id x = i) (top_items (st_top st)) = None \<Longrightarrow> toggleTop i st = st"
  by (simp add: toggleTop_def Let_def flip_noop)

lemma find_after_flip:
  "find (\<lambda>x. t_id x = i) xs = Some b \<Longrightarrow>
   find (\<lambda>x. t_id x = i)
     (map (\<lambda>x. if t_id x = i then x\<lparr>t_done := \<not> t_done x\<rparr> else x) xs) =
   Some (b\<lparr>t_done := \<not> t_done b\<rparr>)"
  by (induction xs) (auto split: if_splits)

text \<open>
  C4.  \<open>toggleTop\<close> flips the done flag of the items with the given id and leaves the
  other items as they are.  When the item found under that id was not done, its XP goes to
  \<open>addXP\<close> (the total becomes \<open>max 0 (min (xp + item.xp) maxXP)\<close>, the plain sum
  when that lies on the ladder); when it was done, the XP total is unchanged, so toggling
  back never takes away what was granted.
\<close>

theorem toggleTop_asymmetric:
  "length (top_items (st_top (toggleTop i st))) = length (top_items (st_top st)) \<and>
   (\<forall>k < length (top_items (st_top st)).
      (t_id (top_items (st_top st) ! k) = i \<longrightarrow>
         top_items (st_top (toggleTop i st)) ! k =
           (top_items (st_top st) ! k)\<lparr>t_done := \<not> t_done (top_items (st_top st) ! k)\<rparr>) \<and>
      (t_id (top_items (st_top st) ! k) \<noteq> i \<longrightarrow>
         top_items (st_top (toggleTop i st)) ! k = top_items (st_top st) ! k)) \<and>
   (\<forall>b. find (\<lambda>x. t_id x = i) (top_items (st_top st)) = Some b \<longrightarrow>
      (\<not> t_done b \<longrightarrow>
         st_xp (toggleTop i st) = max 0 (min (st_xp st + t_xp b) maxXPAllTiers) \<and>
         (0 \<le> st_xp st + t_xp b \<and> st_xp st + t_xp b \<le> maxXPAllTiers \<longrightarrow>
            st_xp (toggleTop i st) = st_xp st + t_xp b) \<and>
         st_xp (toggleTop i (toggleTop i st)) = st_xp (toggleTop i st)) \<and>
      (t_done b \<longrightarrow> st_xp (toggleTop i st) = st_xp st)) \<and>
   (find (\<lambda>x. t_id x = i) (top_items (st_top st)) = None \<longrightarrow> toggleTop i st = st)"
proof -
  have undo: "st_xp (toggleTop i (toggleTop i st)) = st_xp (toggleTop i st)"
    if "find (\<lambda>x. t_id x = i) (top_items (st_top st)) = Some b" and "\<not> t_done b" for b
  proof -
    have f: "find (\<lambda>x. t_id x = i) (top_items (st_top (toggleTop i st))) =
            Some (b\<lparr>t_done := True\<rparr>)"
      using that by (simp add: toggleTop_items find_after_flip)
    show ?thesis
      by (rule toggleTop_xp_keep [OF f]) simp
  qed
  show ?thesis
    using undo by (auto simp: toggleTop_items toggleTop_xp_grant toggleTop_xp_keep toggleTop_absent)
qed
theorem toggleTop_asymmetric_witness:
  "find (\<lambda>x. t_id x = ''a'') (top_items (st_top example_top)) =
     Some \<lparr> t_id = ''a'', t_srcId = None, t_label = ''Call the printer'', t_xp = 25,
            t_done = False \<rparr> \<and>
   (0::nat) < length (top_items (st_top example_top)) \<and>
   st_xp (toggleTop ''a'' example_top) = 125 \<and>
   t_done (top_items (st_top (toggleTop ''a'' example_top)) ! 0) \<and>
   st_xp (toggleTop ''a'' (toggleTop ''a'' example_top)) = 125"
  using toggleTop_asymmetric [of "''a''" example_top]
  by (simp add: example_top_def rank_constants)

text \<open>
  C5.  With five (or more) items in the top-task list, \<open>addTopFromTask\<close> and
  \<open>addTopCustom\<close> both return the store they were given: nothing is appended and no
  other field changes.
\<close>

theorem top_capacity:
  assumes "length (top_items (st_top st)) \<ge> 5"
  shows "addTopFromTask taskId fresh st = st \<and> addTopCustom label xpVal fresh st = st"
  using assms by (simp add: addTopFromTask_def addTopCustom_def Let_def split: option.split)

theorem top_capacity_witness:
  "length (top_items (st_top example_top)) \<ge> 5 \<and>
   addTopFromTask ''close'' ''f'' example_top = example_top \<and>
   addTopCustom ''Plan the week'' (Some 30) ''f'' example_top = example_top"
  using top_capacity [of example_top "''close''" "''f''" "''Plan the week''" "Some 30"]
  by (simp add: example_top_def)

subsection \<open>Cloud sync\<close>

lemma onSnapshot_applying:
  "fb_applying (onSnapshot today (Some d) st)"
  by (simp add: onSnapshot_def Let_def)

lemma onSnapshot_db:
  "fb_db (onSnapshot today (Some d) st) = fb_db st"
  by (simp add: onSnapshot_def Let_def)

lemma runCleanup_fields:
  "aggregates (runCleanup st) = aggregates st"
  "fb_lastSaved (runCleanup st) = fb_lastSaved st"
  "fb_applying (runCleanup st) = fb_applying st"
  "fb_db (runCleanup st) = fb_db st"
  by (simp_all add: runCleanup_def aggregates_def)

lemma saveEffect_guarded:
  "fb_applying st \<Longrightarrow> saveEffect ts st = (runCleanup st)\<lparr>save_cleanup := False\<rparr>"
  by (simp add: saveEffect_def Let_def runCleanup_fields)

lemma saveEffect_same:
  "fb_lastSaved st = JSON_stringify (JObj (aggregates st)) \<Longrightarrow>
   saveEffect ts st = (runCleanup st)\<lparr>save_cleanup := False\<rparr>"
  by (simp add: saveEffect_def Let_def runCleanup_fields del: JSON_stringify.simps)

lemma saveEffect_starts_iff:
  "save_cleanup (saveEffect ts st) \<longleftrightarrow>
     fb_db st \<and> \<not> fb_applying st \<and> fb_lastSaved st \<noteq> JSON_stringify (JObj (aggregates st))"
  by (simp add: saveEffect_def Let_def runCleanup_fields del: JSON_stringify.simps)

lemma saveEffect_started:
  "save_cleanup (saveEffect ts st) \<Longrightarrow>
   saveTimer (saveEffect ts st) =
     Some (JObj (aggregates st @ [(''updatedAt'', ts)]), JSON_stringify (JObj (aggregates st)))"
  by (simp add: saveEffect_def Let_def runCleanup_fields del: JSON_stringify.simps
      split: if_splits)

lemma saveEffect_not_started:
  "\<not> save_cleanup (saveEffect ts st) \<Longrightarrow>
   saveEffect ts st = (runCleanup st)\<lparr>save_cleanup := False\<rparr>"
  by (simp add: saveEffect_def Let_def runCleanup_fields del: JSON_stringify.simps
      split: if_splits)

lemma is_number_get_obj:
  "is_number (js_get d k) \<Longrightarrow> \<exists>kvs. d = JObj kvs"
  by (cases d) simp_all

lemma nullish_or_keep:
  "is_number v \<Longrightarrow> nullish_or v w = v"
  "is_array v \<Longrightarrow> nullish_or v w = v"
  "truthy v \<Longrightarrow> nullish_or v w = v"
  by (cases v; simp add: nullish_or_def)+

lemma onSnapshot_lastSaved:
  "fb_lastSaved (onSnapshot today (Some d) st) =
   JSON_stringify (JObj (snapshot_shape today (js_or d (JObj []))))"
  by (simp add: onSnapshot_def Let_def)

lemma onSnapshot_full:
  assumes "applied_in_full d st"
  shows "aggregates (onSnapshot today (Some d) st) = snapshot_shape today (js_or d (JObj []))"
proof -
  from assms obtain kvs where d: "d = JObj kvs"
    unfolding applied_in_full_def using is_number_get_obj by blast
  have data: "js_or d (JObj []) = d"
    by (simp add: d js_or_def)
  from assms show ?thesis
    unfolding applied_in_full_def data
    by (auto simp: onSnapshot_def Let_def data aggregates_def snapshot_shape_def nullish_or_keep)
qed

lemma release_fields:
  "aggregates (releaseApplying st) = aggregates st"
  "fb_lastSaved (releaseApplying st) = fb_lastSaved st"
  "fb_db (releaseApplying st) = fb_db st"
  "\<not> fb_applying (releaseApplying st)"
  by (simp_all add: aggregates_def releaseApplying_def)

text \<open>
  C6.  Handling a remote snapshot does not start a write of the same content.  While the
  applying guard is set, the save effect returns early: it starts no timer (and, as on
  every run, the cleanup of the previous run has cancelled a pending one).  Once the guard
  is released, the effect starts a timer exactly when the store is connected and the
  serialization of the current aggregates differs from \<open>lastSaved\<close>, which the handler
  set to the serialization of the snapshot with its absent fields replaced by their
  defaults; the write then carries the current aggregates, which differ from that snapshot
  shape.  When the snapshot was applied in full, the serialization of the aggregates equals
  \<open>lastSaved\<close> and the comparison returns before any timer is started.
\<close>

theorem snapshot_never_echoes:
  "saveEffect ts (onSnapshot today (Some d) st) =
     (runCleanup (onSnapshot today (Some d) st))\<lparr>save_cleanup := False\<rparr> \<and>
   (applied_in_full d st \<longrightarrow>
      JSON_stringify (JObj (aggregates (onSnapshot today (Some d) st))) =
        fb_lastSaved (onSnapshot today (Some d) st) \<and>
      saveEffect ts (releaseApplying (onSnapshot today (Some d) st)) =
        (runCleanup (releaseApplying (onSnapshot today (Some d) st)))\<lparr>save_cleanup := False\<rparr>) \<and>
   (save_cleanup (saveEffect ts (releaseApplying (onSnapshot today (Some d) st))) \<longleftrightarrow>
      fb_db st \<and>
      JSON_stringify (JObj (aggregates (onSnapshot today (Some d) st))) \<noteq>
        JSON_stringify (JObj (snapshot_shape today (js_or d (JObj []))))) \<and>
   (save_cleanup (saveEffect ts (releaseApplying (onSnapshot today (Some d) st))) \<longrightarrow>
      saveTimer (saveEffect ts (releaseApplying (onSnapshot today (Some d) st))) =
        Some (JObj (aggregates (onSnapshot today (Some d) st) @ [(''updatedAt'', ts)]),
              JSON_stringify (JObj (aggregates (onSnapshot today (Some d) st)))) \<and>
      aggregates (onSnapshot today (Some d) st) \<noteq> snapshot_shape today (js_or d (JObj []))) \<and>
   (\<not> save_cleanup (saveEffect ts (releaseApplying (onSnapshot today (Some d) st))) \<longrightarrow>
      saveEffect ts (releaseApplying (onSnapshot today (Some d) st)) =
        (runCleanup (releaseApplying (onSnapshot today (Some d) st)))\<lparr>save_cleanup := False\<rparr>)"
proof (intro conjI impI)
  let ?s = "onSnapshot today (Some d) st"
  let ?r = "releaseApplying ?s"
  show "saveEffect ts ?s = (runCleanup ?s)\<lparr>save_cleanup := False\<rparr>"
    by (rule saveEffect_guarded) (rule onSnapshot_applying)
  show same: "JSON_stringify (JObj (aggregates ?s)) = fb_lastSaved ?s" if "applied_in_full d st"
    using that by (simp only: onSnapshot_full onSnapshot_lastSaved)
  show "saveEffect ts ?r = (runCleanup ?r)\<lparr>save_cleanup := False\<rparr>" if "applied_in_full d st"
    by (rule saveEffect_same) (simp only: release_fields same [OF that])
  show iff: "save_cleanup (saveEffect ts ?r) \<longleftrightarrow>
      fb_db st \<and>
      JSON_stringify (JObj (aggregates ?s)) \<noteq>
        JSON_stringify (JObj (snapshot_shape today (js_or d (JObj []))))"
    unfolding saveEffect_starts_iff release_fields onSnapshot_db onSnapshot_lastSaved
    using release_fields(4) [of ?s] by (simp del: JSON_stringify.simps) metis
  show "saveTimer (saveEffect ts ?r) =
        Some (JObj (aggregates ?s @ [(''updatedAt'', ts)]), JSON_stringify (JObj (aggregates ?s)))"
    if "save_cleanup (saveEffect ts ?r)"
    using saveEffect_started [OF that] by (simp only: release_fields)
  show "aggregates ?s \<noteq> snapshot_shape today (js_or d (JObj []))"
    if "save_cleanup (saveEffect ts ?r)"
    using that iff by auto
  show "saveEffect ts ?r = (runCleanup ?r)\<lparr>save_cleanup := False\<rparr>"
    if "\<not> save_cleanup (saveEffect ts ?r)"
    using that by (rule saveEffect_not_started)
qed

theorem snapshot_never_echoes_witness:
  "applied_in_full full_doc local_store \<and> fb_db local_store \<and>
   JSON_stringify (JObj (aggregates (onSnapshot ''2024-05-01'' (Some full_doc) local_store))) =
     fb_lastSaved (onSnapshot ''2024-05-01'' (Some full_doc) local_store) \<and>
   saveEffect server_ts (releaseApplying (onSnapshot ''2024-05-01'' (Some full_doc) local_store)) =
     (runCleanup (releaseApplying (onSnapshot ''2024-05-01'' (Some full_doc) local_store)))
       \<lparr>save_cleanup := False\<rparr> \<and>
   \<not> save_cleanup
       (saveEffect server_ts (releaseApplying (onSnapshot ''2024-05-01'' (Some full_doc) local_store))) \<and>
   JSON_stringify (JObj (aggregates (onSnapshot ''2024-05-01'' (Some partial_doc) local_store))) \<noteq>
     JSON_stringify (JObj (snapshot_shape ''2024-05-01'' (js_or partial_doc (JObj [])))) \<and>
   save_cleanup
     (saveEffect server_ts (releaseApplying (onSnapshot ''2024-05-01'' (Some partial_doc) local_store))) \<and>
   aggregates (onSnapshot ''2024-05-01'' (Some partial_doc) local_store) \<noteq>
     snapshot_shape ''2024-05-01'' (js_or partial_doc (JObj []))"
proof -
  have full: "applied_in_full full_doc local_store"
    by (simp add: applied_in_full_def full_doc_def local_store_def)
  have db: "fb_db local_store"
    by (simp add: local_store_def)
  have part: "JSON_stringify (JObj (aggregates (onSnapshot ''2024-05-01'' (Some partial_doc) local_store))) \<noteq>
     JSON_stringify (JObj (snapshot_shape ''2024-05-01'' (js_or partial_doc (JObj []))))"
    by code_simp
  note F = snapshot_never_echoes [of server_ts "''2024-05-01''" full_doc local_store]
  note P = snapshot_never_echoes [of server_ts "''2024-05-01''" partial_doc local_store]
  have f1: "JSON_stringify (JObj (aggregates (onSnapshot ''2024-05-01'' (Some full_doc) local_store))) =
     fb_lastSaved (onSnapshot ''2024-05-01'' (Some full_doc) local_store)"
    and f2: "saveEffect server_ts (releaseApplying (onSnapshot ''2024-05-01'' (Some full_doc) local_store)) =
     (runCleanup (releaseApplying (onSnapshot ''2024-05-01'' (Some full_doc) local_store)))
       \<lparr>save_cleanup := False\<rparr>"
    using F [THEN conjunct2, THEN conjunct1, rule_format, OF full] by blast+
  have f3: "\<not> save_cleanup
       (saveEffect server_ts (releaseApplying (onSnapshot ''2024-05-01'' (Some full_doc) local_store)))"
    by (subst f2) simp
  have p1: "save_cleanup
     (saveEffect server_ts (releaseApplying (onSnapshot ''2024-05-01'' (Some partial_doc) local_store)))"
    using P [THEN conjunct2, THEN conjunct2, THEN conjunct1] db part by blast
  have p2: "aggregates (onSnapshot ''2024-05-01'' (Some partial_doc) local_store) \<noteq>
     snapshot_shape ''2024-05-01'' (js_or partial_doc (JObj []))"
    using P [THEN conjunct2, THEN conjunct2, THEN conjunct2, THEN conjunct1, rule_format, OF p1]
    by blast
  show ?thesis
    using full db f1 f2 f3 part p1 p2 by blast
qed

text \<open>
  A snapshot that lacks \<open>xp\<close> leaves the local counter in place while \<open>lastSaved\<close>
  records the default 0: once the guard is released, with a local counter of 10 neither the
  guard nor the comparison stops the effect, and a timer is started.
\<close>

theorem snapshot_echo_counterexample:
  "\<not> fb_applying (releaseApplying (onSnapshot ''2024-05-01'' (Some partial_doc) local_store)) \<and>
   JSON_stringify
     (JObj (aggregates (releaseApplying (onSnapshot ''2024-05-01'' (Some partial_doc) local_store)))) \<noteq>
   fb_lastSaved (releaseApplying (onSnapshot ''2024-05-01'' (Some partial_doc) local_store)) \<and>
   saveTimer (releaseApplying (onSnapshot ''2024-05-01'' (Some partial_doc) local_store)) = None \<and>
   saveTimer (saveEffect server_ts
                (releaseApplying (onSnapshot ''2024-05-01'' (Some partial_doc) local_store))) \<noteq> None"
  by code_simp

subsection \<open>Values written to the shared document\<close>

text \<open>
  The leads page sanitizes what it writes.  \<open>sanitizeLead\<close> leaves no object with a
  property of value \<open>undefined\<close>, at any depth and inside arrays, so no field of the
  leads payload is \<open>undefined\<close>; on a lead whose fields are primitive it drops
  exactly the \<open>undefined\<close> fields and keeps the others in order.  (An array placed
  directly inside an array is read through \<open>Object.entries\<close> and comes back as an
  object keyed by index; lead records hold no arrays.)
\<close>

lemma obj_put_subset:
  "set (obj_put k v out) \<subseteq> insert (k, v) (set out)"
  by (induction out) (auto split: if_splits)

lemma obj_put_defined:
  assumes "\<not> undefined_field (JObj out)" and "v \<noteq> JUndefined" and "\<not> undefined_field v"
  shows "\<not> undefined_field (JObj (obj_put k v out))"
proof -
  have "snd kv \<noteq> JUndefined \<and> \<not> undefined_field (snd kv)" if "kv \<in> set (obj_put k v out)" for kv
  proof -
    from that obj_put_subset [of k v out] have "kv = (k, v) \<or> kv \<in> set out"
      by blast
    then show ?thesis
      using assms by (auto simp: list_ex_iff)
  qed
  then show ?thesis
    by (simp add: list_ex_iff)
qed

lemma fold_defined:
  assumes "\<And>kv out. kv \<in> set kvs \<Longrightarrow> \<not> undefined_field (JObj out) \<Longrightarrow>
             \<not> undefined_field (JObj (f kv out))"
    and "\<not> undefined_field (JObj out)"
  shows "\<not> undefined_field (JObj (fold f kvs out))"
  using assms
proof (induction kvs arbitrary: out)
  case Nil
  then show ?case by simp
next
  case (Cons a kvs)
  have "\<not> undefined_field (JObj (f a out))"
    using Cons.prems by simp
  moreover have "\<And>kv out. kv \<in> set kvs \<Longrightarrow> \<not> undefined_field (JObj out) \<Longrightarrow>
             \<not> undefined_field (JObj (f kv out))"
    using Cons.prems(1) by simp
  ultimately have "\<not> undefined_field (JObj (fold f kvs (f a out)))"
    by (rule Cons.IH [rotated])
  then show ?case by simp
qed

lemma sanitize_step_defined:
  assumes arr: "\<And>vs x. snd kv = JArr vs \<Longrightarrow> x \<in> set vs \<Longrightarrow> \<not> undefined_field (g x)"
    and obj: "\<And>ws. snd kv = JObj ws \<Longrightarrow> \<not> undefined_field (g (JObj ws)) \<and> g (JObj ws) \<noteq> JUndefined"
    and out: "\<not> undefined_field (JObj out)"
  shows "\<not> undefined_field (JObj
           (case snd kv of
              JUndefined \<Rightarrow> out
            | JArr vs \<Rightarrow> obj_put (fst kv) (JArr (map g vs)) out
            | JObj ws \<Rightarrow> obj_put (fst kv) (g (JObj ws)) out
            | v \<Rightarrow> obj_put (fst kv) v out))"
proof (cases "snd kv")
  case (JArr vs)
  have "\<not> undefined_field (JArr (map g vs))"
    using arr [OF JArr] by (simp add: list_ex_iff)
  then have "\<not> undefined_field (JObj (obj_put (fst kv) (JArr (map g vs)) out))"
    by (intro obj_put_defined out) simp_all
  then show ?thesis
    by (simp only: JArr jsval.case simp_thms)
next
  case (JObj ws)
  have "\<not> undefined_field (JObj (obj_put (fst kv) (g (JObj ws)) out))"
    using obj [OF JObj] by (intro obj_put_defined out) simp_all
  then show ?thesis
    by (simp only: JObj jsval.case simp_thms)
next
  case JUndefined
  then show ?thesis
    using out by (simp only: JUndefined jsval.case simp_thms)
next
  case JNull
  have "\<not> undefined_field (JObj (obj_put (fst kv) JNull out))"
    by (intro obj_put_defined out) simp_all
  then show ?thesis
    by (simp only: JNull jsval.case simp_thms)
next
  case (JBool b)
  have "\<not> undefined_field (JObj (obj_put (fst kv) (JBool b) out))"
    by (intro obj_put_defined out) simp_all
  then show ?thesis
    by (simp only: JBool jsval.case simp_thms)
next
  case (JNum n)
  have "\<not> undefined_field (JObj (obj_put (fst kv) (JNum n) out))"
    by (intro obj_put_defined out) simp_all
  then show ?thesis
    by (simp only: JNum jsval.case simp_thms)
next
  case (JStr s)
  have "\<not> undefined_field (JObj (obj_put (fst kv) (JStr s) out))"
    by (intro obj_put_defined out) simp_all
  then show ?thesis
    by (simp only: JStr jsval.case simp_thms)
qed

lemma sanitizeLead_shape:
  "sanitizeLead (JObj kvs) \<noteq> JUndefined" "sanitizeLead (JArr xs) \<noteq> JUndefined"
  by simp_all

lemma sanitizeLead_strips_fields:
  "\<not> undefined_field (sanitizeLead v)"
proof (induction v rule: sanitizeLead.induct)
  case (6 kvs)
  have "\<not> undefined_field (JObj (fold (\<lambda>kv out.
             case snd kv of
               JUndefined \<Rightarrow> out
             | JArr vs \<Rightarrow> obj_put (fst kv) (JArr (map sanitizeLead vs)) out
             | JObj ws \<Rightarrow> obj_put (fst kv) (sanitizeLead (JObj ws)) out
             | v \<Rightarrow> obj_put (fst kv) v out) kvs []))"
  proof (rule fold_defined)
    fix kv out
    assume kv: "kv \<in> set kvs" and out: "\<not> undefined_field (JObj out)"
    show "\<not> undefined_field (JObj
           (case snd kv of
              JUndefined \<Rightarrow> out
            | JArr vs \<Rightarrow> obj_put (fst kv) (JArr (map sanitizeLead vs)) out
            | JObj ws \<Rightarrow> obj_put (fst kv) (sanitizeLead (JObj ws)) out
            | v \<Rightarrow> obj_put (fst kv) v out))"
    proof (rule sanitize_step_defined [OF _ _ out])
      show "\<not> undefined_field (sanitizeLead x)" if "snd kv = JArr vs" and "x \<in> set vs" for vs x
        using "6.IH"(1) [OF kv that] .
      show "\<not> undefined_field (sanitizeLead (JObj ws)) \<and> sanitizeLead (JObj ws) \<noteq> JUndefined"
        if "snd kv = JObj ws" for ws
        using "6.IH"(2) [OF kv that] sanitizeLead_shape(1) by blast
    qed
  qed simp
  then show ?case by simp
next
  case (7 xs)
  have "\<not> undefined_field (JObj (fold (\<lambda>kv out.
             case snd kv of
               JUndefined \<Rightarrow> out
             | JArr vs \<Rightarrow> obj_put (fst kv) (JArr (map sanitizeLead vs)) out
             | JObj ws \<Rightarrow> obj_put (fst kv) (sanitizeLead (JObj ws)) out
             | v \<Rightarrow> obj_put (fst kv) v out) (array_entries xs) []))"
  proof (rule fold_defined)
    fix kv out
    assume kv: "kv \<in> set (array_entries xs)" and out: "\<not> undefined_field (JObj out)"
    show "\<not> undefined_field (JObj
           (case snd kv of
              JUndefined \<Rightarrow> out
            | JArr vs \<Rightarrow> obj_put (fst kv) (JArr (map sanitizeLead vs)) out
            | JObj ws \<Rightarrow> obj_put (fst kv) (sanitizeLead (JObj ws)) out
            | v \<Rightarrow> obj_put (fst kv) v out))"
    proof (rule sanitize_step_defined [OF _ _ out])
      show "\<not> undefined_field (sanitizeLead x)" if "snd kv = JArr vs" and "x \<in> set vs" for vs x
        using "7.IH"(1) [OF kv that] .
      show "\<not> undefined_field (sanitizeLead (JObj ws)) \<and> sanitizeLead (JObj ws) \<noteq> JUndefined"
        if "snd kv = JObj ws" for ws
        using "7.IH"(2) [OF kv that] sanitizeLead_shape(1) by blast
    qed
  qed simp
  then show ?case by simp
qed simp_all


lemma leads_write_defined:
  assumes "ts \<noteq> JUndefined" and "\<not> undefined_field ts"
  shows "\<not> undefined_field (leadsPayload ts leads)"
  using assms
  by (simp add: leadsPayload_def sanitizeLeads_def list_ex_iff sanitizeLead_strips_fields
      del: sanitizeLead.simps)

lemma obj_put_fresh:
  "k \<notin> fst ` set out \<Longrightarrow> obj_put k v out = out @ [(k, v)]"
  by (induction out) auto

lemma sanitize_fold_flat:
  assumes "\<forall>kv \<in> set l. is_primitive (snd kv)"
    and "distinct (map fst l)"
    and "fst ` set l \<inter> fst ` set out = {}"
  shows "fold (\<lambda>kv out.
             case snd kv of
               JUndefined \<Rightarrow> out
             | JArr vs \<Rightarrow> obj_put (fst kv) (JArr (map g vs)) out
             | JObj ws \<Rightarrow> obj_put (fst kv) (g (JObj ws)) out
             | v \<Rightarrow> obj_put (fst kv) v out) l out =
         out @ filter (\<lambda>kv. snd kv \<noteq> JUndefined) l"
  using assms
proof (induction l arbitrary: out)
  case Nil
  then show ?case by simp
next
  case (Cons a l)
  obtain k v where a: "a = (k, v)"
    by (cases a)
  have fresh: "k \<notin> fst ` set out"
    using Cons.prems(3) a by auto
  have rest: "\<forall>kv \<in> set l. is_primitive (snd kv)" "distinct (map fst l)"
    using Cons.prems(1,2) by simp_all
  have k: "k \<notin> fst ` set l"
    using Cons.prems(2) a by simp
  show ?case
  proof (cases "v = JUndefined")
    case True
    have "fst ` set l \<inter> fst ` set out = {}"
      using Cons.prems(3) by auto
    from Cons.IH [OF rest this] show ?thesis
      by (simp add: a True)
  next
    case False
    have prim: "is_primitive v"
      using Cons.prems(1) a by simp
    have step: "(case snd a of
               JUndefined \<Rightarrow> out
             | JArr vs \<Rightarrow> obj_put (fst a) (JArr (map g vs)) out
             | JObj ws \<Rightarrow> obj_put (fst a) (g (JObj ws)) out
             | v \<Rightarrow> obj_put (fst a) v out) = out @ [(k, v)]"
      using False prim fresh unfolding a by (cases v) (simp_all add: obj_put_fresh)
    have "fst ` set l \<inter> fst ` set (out @ [(k, v)]) = {}"
      using Cons.prems(3) k by auto
    from Cons.IH [OF rest this] show ?thesis
      unfolding fold_Cons comp_apply step by (simp add: a False)
  qed
qed

lemma sanitizeLead_flat:
  assumes "\<forall>kv \<in> set l. is_primitive (snd kv)" and "distinct (map fst l)"
  shows "sanitizeLead (JObj l) = JObj (filter (\<lambda>kv. snd kv \<noteq> JUndefined) l)"
  using sanitize_fold_flat [OF assms, of "[]" sanitizeLead] by simp

lemma stringify_obj_nonempty:
  "JSON_stringify (JObj kvs) \<noteq> []"
  by simp

lemma saveEffect_first:
  "fb_db st \<Longrightarrow> \<not> fb_applying st \<Longrightarrow> fb_lastSaved st = [] \<Longrightarrow>
   fst (fireSave outcome (saveEffect ts st)) = Some (JObj (aggregates st @ [(''updatedAt'', ts)]))"
  using stringify_obj_nonempty [of "aggregates st"]
  by (simp add: saveEffect_def fireSave_def Let_def runCleanup_def aggregates_def
      del: JSON_stringify.simps)

lemma js_trim_empty:
  "js_trim [] = []"
  by (simp add: js_trim_def strip_leading.simps js_whitespace_def)

lemma addTask_blank_group:
  "js_trim label \<noteq> [] \<Longrightarrow> has_undefined (JArr (addTask label xp [] now tasks))"
  by (simp add: addTask_def js_trim_empty)

text \<open>
  C7.  What reaches the shared document must hold no \<open>undefined\<close>.  The tracker's
  write sends the aggregates as they are: after the task editor adds a task with a blank
  group, the payload that the next save hands to \<open>setDoc\<close> holds \<open>group: undefined\<close>,
  whatever becomes of the write.
\<close>

theorem tracker_write_carries_undefined:
  "map_option has_undefined
     (fst (fireSave outcome (saveEffect server_ts
        (local_store\<lparr>sy_tasks :=
           JArr (addTask ''Publish a blog post'' (Some 10) [] 1714550000000 [])\<rparr>)))) =
   Some True"
proof -
  have label: "js_trim ''Publish a blog post'' \<noteq> []"
    by (simp add: js_trim_def strip_leading.simps js_whitespace_def)
  have "has_undefined (JArr (addTask ''Publish a blog post'' (Some 10) [] 1714550000000 []))"
    using label by (rule addTask_blank_group)
  then show ?thesis
    by (subst saveEffect_first) (simp_all add: local_store_def aggregates_def)
qed

subsection \<open>Importing leads\<close>

lemma insert_by_length: "length (insert_by cmp x ys) = Suc (length ys)"
  by (induction ys) simp_all

lemma insert_by_set: "set (insert_by cmp x ys) = insert x (set ys)"
  by (induction ys) auto

lemma js_sort_length: "length (js_sort cmp xs) = length xs"
  by (induction xs) (simp_all add: js_sort_def insert_by_length)

lemma js_sort_set: "set (js_sort cmp xs) = set xs"
  by (induction xs) (simp_all add: js_sort_def insert_by_set)

lemma cleanRows_ok:
  "\<forall>d \<in> set rows. d \<noteq> JNull \<and> d \<noteq> JUndefined \<Longrightarrow>
   cleanRows h i rows = Inr (map (\<lambda>kd. cleanRow h (fst kd) (snd kd)) (enumerate i rows))"
  by (induction rows arbitrary: i) simp_all

lemma cleanRows_null:
  "JNull \<in> set rows \<Longrightarrow> cleanRows h i rows = Inl TypeError"
  by (induction rows arbitrary: i) (auto split: sum.splits)

lemma cleanRow_status:
  "obj_get (cleanRow h i d) ''status'' =
     (if js_includes STATUSES (js_get d ''status'') then js_get d ''status'' else JStr ''New'')"
  by (simp add: obj_get_def cleanRow_def)

lemma cleanRow_priority:
  "obj_get (cleanRow h i d) ''priority'' =
     (if js_includes PRIORITIES (js_get d ''priority'') then js_get d ''priority''
      else JStr ''Medium'')"
  by (simp add: obj_get_def cleanRow_def)

text \<open>
  Importing an array in which no element is \<open>null\<close> replaces the collection by one
  lead per row, sorted: a row whose status is not one of the six statuses comes out with
  status \<open>New\<close>, one whose priority is not recognised with priority \<open>Medium\<close>,
  and a recognised status or priority is kept.
\<close>

lemma import_admits_rows:
  assumes "JSON_parse h content = Some (JArr rows)"
    and "\<forall>d \<in> set rows. d \<noteq> JNull \<and> d \<noteq> JUndefined"
  shows "onImportJSON h (Some content) leads =
           js_sort (sortLeads h) (map (\<lambda>kd. cleanRow h (fst kd) (snd kd)) (enumerate 0 rows)) \<and>
         length (onImportJSON h (Some content) leads) = length rows \<and>
         (\<forall>k < length rows.
            cleanRow h k (rows ! k) \<in> set (onImportJSON h (Some content) leads) \<and>
            (\<not> js_includes STATUSES (js_get (rows ! k) ''status'') \<longrightarrow>
               obj_get (cleanRow h k (rows ! k)) ''status'' = JStr ''New'') \<and>
            (js_includes STATUSES (js_get (rows ! k) ''status'') \<longrightarrow>
               obj_get (cleanRow h k (rows ! k)) ''status'' = js_get (rows ! k) ''status'') \<and>
            (\<not> js_includes PRIORITIES (js_get (rows ! k) ''priority'') \<longrightarrow>
               obj_get (cleanRow h k (rows ! k)) ''priority'' = JStr ''Medium'') \<and>
            (js_includes PRIORITIES (js_get (rows ! k) ''priority'') \<longrightarrow>
               obj_get (cleanRow h k (rows ! k)) ''priority'' = js_get (rows ! k) ''priority''))"
proof -
  let ?clean = "map (\<lambda>kd. cleanRow h (fst kd) (snd kd)) (enumerate 0 rows)"
  have res: "onImportJSON h (Some content) leads = js_sort (sortLeads h) ?clean"
    using assms by (simp add: onImportJSON_def cleanRows_ok)
  have len: "length (onImportJSON h (Some content) leads) = length rows"
    by (simp add: res js_sort_length)
  have mem: "cleanRow h k (rows ! k) \<in> set (onImportJSON h (Some content) leads)"
    if "k < length rows" for k
  proof -
    have "?clean ! k = cleanRow h k (rows ! k)"
      using that by (simp add: nth_enumerate_eq)
    moreover have "?clean ! k \<in> set ?clean"
      using that by (intro nth_mem) simp
    ultimately show ?thesis
      by (simp only: res js_sort_set)
  qed
  show ?thesis
    using res len mem by (simp add: cleanRow_status cleanRow_priority)
qed

lemma import_two_rows:
  "JSON_parse demo_host ''[good, bad]'' = Some (JArr [good_row, bad_row]) \<and>
   good_row \<noteq> JNull \<and> good_row \<noteq> JUndefined \<and> bad_row \<noteq> JNull \<and> bad_row \<noteq> JUndefined \<and>
   \<not> js_includes STATUSES (js_get bad_row ''status'') \<and>
   \<not> js_includes PRIORITIES (js_get bad_row ''priority'') \<and>
   length (onImportJSON demo_host (Some ''[good, bad]'') [bob]) = 2 \<and>
   cleanRow demo_host 1 bad_row \<in> set (onImportJSON demo_host (Some ''[good, bad]'') [bob]) \<and>
   obj_get (cleanRow demo_host 1 bad_row) ''status'' = JStr ''New'' \<and>
   obj_get (cleanRow demo_host 1 bad_row) ''priority'' = JStr ''Medium'' \<and>
   obj_get (cleanRow demo_host 0 good_row) ''status'' = JStr ''Won''"
proof -
  have parse: "JSON_parse demo_host ''[good, bad]'' = Some (JArr [good_row, bad_row])"
    by (simp add: demo_host_def)
  have rows: "\<forall>d \<in> set [good_row, bad_row]. d \<noteq> JNull \<and> d \<noteq> JUndefined"
    by (simp add: good_row_def bad_row_def)
  have bad: "\<not> js_includes STATUSES (js_get bad_row ''status'')"
            "\<not> js_includes PRIORITIES (js_get bad_row ''priority'')"
    by (simp_all add: js_includes_def bad_row_def STATUSES_def PRIORITIES_def)
  have good: "js_includes STATUSES (js_get good_row ''status'')"
             "js_get good_row ''status'' = JStr ''Won''"
    by (simp_all add: js_includes_def good_row_def STATUSES_def)
  note T = import_admits_rows [OF parse rows, of "[bob]"]
  have len: "length (onImportJSON demo_host (Some ''[good, bad]'') [bob]) = 2"
    using T [THEN conjunct2, THEN conjunct1] by simp
  have k1: "cleanRow demo_host 1 bad_row \<in> set (onImportJSON demo_host (Some ''[good, bad]'') [bob])"
    "obj_get (cleanRow demo_host 1 bad_row) ''status'' = JStr ''New''"
    "obj_get (cleanRow demo_host 1 bad_row) ''priority'' = JStr ''Medium''"
    using T [THEN conjunct2, THEN conjunct2, rule_format, of 1] bad by simp_all
  have k0: "obj_get (cleanRow demo_host 0 good_row) ''status'' = JStr ''Won''"
    using T [THEN conjunct2, THEN conjunct2, rule_format, of 0] good by simp
  show ?thesis
    using parse rows bad len k1 k0 by simp
qed

text \<open>
  C8.  One bad row must never make the import fail as a whole: a file with one well-formed
  lead and one lead of invalid status yields two leads, the invalid one under \<open>New\<close>
  (shown above for every array of rows other than \<open>null\<close>).  A row that is
  \<open>null\<close> is not survived: reading its \<open>id\<close> throws inside the \<open>try\<close>,
  the \<open>catch\<close> takes over, and the collection stays as it was, the well-formed lead
  of the file included.
\<close>

theorem import_null_row_rejected:
  "JSON_parse demo_host ''[good, null]'' = Some (JArr [good_row, JNull]) \<and>
   cleanRows demo_host 0 [good_row, JNull] = Inl TypeError \<and>
   onImportJSON demo_host (Some ''[good, null]'') [bob] = [bob]"
  by (simp add: demo_host_def onImportJSON_def good_row_def)

text \<open>
  C10.  When the file text does not parse, or parses to something that is not an array,
  the import leaves the collection exactly as it was.
\<close>

theorem import_all_or_nothing:
  assumes "JSON_parse h content = None \<or>
           (\<exists>data. JSON_parse h content = Some data \<and> \<not> is_array data)"
  shows "onImportJSON h (Some content) leads = leads"
  using assms
proof
  assume "JSON_parse h content = None"
  then show ?thesis
    by (simp add: onImportJSON_def)
next
  assume "\<exists>data. JSON_parse h content = Some data \<and> \<not> is_array data"
  then obtain data where "JSON_parse h content = Some data" and "\<not> is_array data"
    by blast
  then show ?thesis
    by (cases data) (simp_all add: onImportJSON_def)
qed

theorem import_all_or_nothing_witness:
  "JSON_parse demo_host ''not json'' = None \<and>
   onImportJSON demo_host (Some ''not json'') [ann, bob] = [ann, bob] \<and>
   JSON_parse demo_host ''{}'' = Some (JObj []) \<and> \<not> is_array (JObj []) \<and>
   onImportJSON demo_host (Some ''{}'') [ann, bob] = [ann, bob]"
proof -
  have a: "JSON_parse demo_host ''not json'' = None"
    by (simp add: demo_host_def)
  have b: "JSON_parse demo_host ''{}'' = Some (JObj [])"
    by (simp add: demo_host_def)
  have c: "\<exists>data. JSON_parse demo_host ''{}'' = Some data \<and> \<not> is_array data"
    using b by simp
  show ?thesis
    using import_all_or_nothing [of demo_host "''not json''" "[ann, bob]", OF disjI1, OF a]
      import_all_or_nothing [of demo_host "''{}''" "[ann, bob]", OF disjI2, OF c] a b
    by simp
qed

subsection \<open>Updating a lead\<close>

lemma map_of_obj_put:
  "map_of (obj_put k v kvs) k' = (if k' = k then Some v else map_of kvs k')"
  by (induction kvs) auto

lemma map_of_spread_distinct:
  "distinct (map fst src) \<Longrightarrow>
   map_of (spread_into src out) k =
     (case map_of src k of Some v \<Rightarrow> Some v | None \<Rightarrow> map_of out k)"
  unfolding spread_into_def
proof (induction src arbitrary: out)
  case Nil
  then show ?case by simp
next
  case (Cons a src)
  then have d: "distinct (map fst src)" and a: "fst a \<notin> fst ` set src"
    by simp_all
  show ?case
  proof (cases "k = fst a")
    case True
    then have "map_of src k = None"
      using a by (simp add: map_of_eq_None_iff)
    then show ?thesis
      using True Cons.IH [OF d] by (cases a) (simp add: map_of_obj_put)
  next
    case False
    then show ?thesis
      using Cons.IH [OF d] by (cases a) (simp add: map_of_obj_put split: option.split)
  qed
qed

lemma map_of_spread_source:
  "map_of (spread_into src out) k = map_of out k \<or>
   (\<exists>v. (k, v) \<in> set src \<and> map_of (spread_into src out) k = Some v)"
  unfolding spread_into_def
proof (induction src arbitrary: out)
  case Nil
  then show ?case by simp
next
  case (Cons a src)
  from Cons.IH [of "obj_put (fst a) (snd a) out"]
  show ?case
  proof
    assume same: "map_of (fold (\<lambda>kv. obj_put (fst kv) (snd kv)) src (obj_put (fst a) (snd a) out)) k =
                  map_of (obj_put (fst a) (snd a) out) k"
    show ?thesis
    proof (cases "k = fst a")
      case True
      then have "(k, snd a) \<in> set (a # src)"
        by (cases a) simp
      moreover have "map_of (fold (\<lambda>kv. obj_put (fst kv) (snd kv)) (a # src) out) k = Some (snd a)"
        using same True by (simp add: map_of_obj_put)
      ultimately show ?thesis by blast
    next
      case False
      then show ?thesis
        using same by (simp add: map_of_obj_put)
    qed
  next
    assume "\<exists>v. (k, v) \<in> set src \<and>
              map_of (fold (\<lambda>kv. obj_put (fst kv) (snd kv)) src (obj_put (fst a) (snd a) out)) k = Some v"
    then show ?thesis by auto
  qed
qed

lemma updated_updatedAt:
  "obj_get (obj_put ''updatedAt'' (JNum now) l) ''updatedAt'' = JNum now"
  by (simp add: obj_get_def map_of_obj_put)

lemma updated_createdAt:
  assumes "distinct (map fst l)"
    and "\<forall>v. (''createdAt'', v) \<in> set patch \<longrightarrow> v = obj_get l ''createdAt''"
  shows "obj_get (obj_put ''updatedAt'' (JNum now) (spread_into patch (spread_into l [])))
           ''createdAt'' = obj_get l ''createdAt''"
proof -
  have base: "map_of (spread_into l []) ''createdAt'' = map_of l ''createdAt''"
    using assms(1) by (simp add: map_of_spread_distinct split: option.split)
  from map_of_spread_source [of patch "spread_into l []" "''createdAt''"]
  have "obj_get (spread_into patch (spread_into l [])) ''createdAt'' = obj_get l ''createdAt''"
  proof
    assume "map_of (spread_into patch (spread_into l [])) ''createdAt'' =
            map_of (spread_into l []) ''createdAt''"
    then show ?thesis
      by (simp add: obj_get_def base)
  next
    assume "\<exists>v. (''createdAt'', v) \<in> set patch \<and>
              map_of (spread_into patch (spread_into l [])) ''createdAt'' = Some v"
    then obtain v where v: "(''createdAt'', v) \<in> set patch"
      and m: "map_of (spread_into patch (spread_into l [])) ''createdAt'' = Some v"
      by blast
    from v assms(2) have "v = obj_get l ''createdAt''"
      by blast
    then show ?thesis
      using m by (simp add: obj_get_def)
  qed
  then show ?thesis
    by (simp add: obj_get_def map_of_obj_put)
qed

text \<open>
  C9.  \<open>updateLead\<close> with a patch that carries no \<open>createdAt\<close>, or carries the
  value the lead already has (as the draft of the edit form does): every lead of the given
  id gets \<open>updatedAt\<close> set to the current time and keeps its \<open>createdAt\<close>; every
  lead of another id is returned as it was.
\<close>

theorem updateLead_frame:
  assumes "\<forall>l \<in> set leads. distinct (map fst l)"
    and "\<forall>l \<in> set leads. obj_get l ''id'' = JStr i \<longrightarrow>
           (\<forall>v. (''createdAt'', v) \<in> set patch \<longrightarrow> v = obj_get l ''createdAt'')"
  shows "length (updateLead i patch now leads) = length leads \<and>
         (\<forall>k < length leads.
            (obj_get (leads ! k) ''id'' = JStr i \<longrightarrow>
               obj_get (updateLead i patch now leads ! k) ''updatedAt'' = JNum now \<and>
               obj_get (updateLead i patch now leads ! k) ''createdAt'' =
                 obj_get (leads ! k) ''createdAt'') \<and>
            (obj_get (leads ! k) ''id'' \<noteq> JStr i \<longrightarrow>
               updateLead i patch now leads ! k = leads ! k))"
proof (intro conjI allI impI)
  show "length (updateLead i patch now leads) = length leads"
    by (simp add: updateLead_def)
next
  fix k
  assume k: "k < length leads" and hit: "obj_get (leads ! k) ''id'' = JStr i"
  have d: "distinct (map fst (leads ! k))"
    using assms(1) k by simp
  have p: "\<forall>v. (''createdAt'', v) \<in> set patch \<longrightarrow> v = obj_get (leads ! k) ''createdAt''"
    using assms(2) k hit by simp
  have upd: "updateLead i patch now leads ! k =
      obj_put ''updatedAt'' (JNum now) (spread_into patch (spread_into (leads ! k) []))"
    using k hit by (simp add: updateLead_def)
  show "obj_get (updateLead i patch now leads ! k) ''updatedAt'' = JNum now"
    unfolding upd by (rule updated_updatedAt)
  show "obj_get (updateLead i patch now leads ! k) ''createdAt'' = obj_get (leads ! k) ''createdAt''"
    unfolding upd by (rule updated_createdAt [OF d p])
next
  fix k
  assume "k < length leads" and "obj_get (leads ! k) ''id'' \<noteq> JStr i"
  then show "updateLead i patch now leads ! k = leads ! k"
    by (simp add: updateLead_def)
qed

theorem updateLead_frame_witness:
  "distinct (map fst ann) \<and> distinct (map fst bob) \<and>
   obj_get ([ann, bob] ! 0) ''id'' = JStr ''a'' \<and>
   obj_get ([ann, bob] ! 1) ''id'' \<noteq> JStr ''a'' \<and>
   obj_get ann ''createdAt'' = JNum 5 \<and>
   length (updateLead ''a'' ann_draft 99 [ann, bob]) = 2 \<and>
   obj_get (updateLead ''a'' ann_draft 99 [ann, bob] ! 0) ''updatedAt'' = JNum 99 \<and>
   obj_get (updateLead ''a'' ann_draft 99 [ann, bob] ! 0) ''createdAt'' = JNum 5 \<and>
   updateLead ''a'' ann_draft 99 [ann, bob] ! 1 = bob"
proof -
  have d: "\<forall>l \<in> set [ann, bob]. distinct (map fst l)"
    by (simp add: ann_def bob_def)
  have ids: "obj_get ([ann, bob] ! 0) ''id'' = JStr ''a''"
            "obj_get ([ann, bob] ! 1) ''id'' \<noteq> JStr ''a''"
            "obj_get ann ''createdAt'' = JNum 5"
    by (simp_all add: ann_def bob_def obj_get_def)
  have p: "\<forall>l \<in> set [ann, bob]. obj_get l ''id'' = JStr ''a'' \<longrightarrow>
             (\<forall>v. (''createdAt'', v) \<in> set ann_draft \<longrightarrow> v = obj_get l ''createdAt'')"
    by (simp add: ann_def bob_def ann_draft_def obj_get_def)
  note T = updateLead_frame [OF d p, of 99]
  have "length (updateLead ''a'' ann_draft 99 [ann, bob]) = 2"
    using T [THEN conjunct1] by simp
  moreover have
    "obj_get (updateLead ''a'' ann_draft 99 [ann, bob] ! 0) ''updatedAt'' = JNum 99"
    "obj_get (updateLead ''a'' ann_draft 99 [ann, bob] ! 0) ''createdAt'' = JNum 5"
    using T [THEN conjunct2, rule_format, of 0] ids by simp_all
  moreover have "updateLead ''a'' ann_draft 99 [ann, bob] ! 1 = bob"
    using T [THEN conjunct2, rule_format, of 1] ids by simp
  ultimately show ?thesis
    using d ids by simp
qed

text \<open>
  Nothing in \<open>updateLead\<close> protects \<open>createdAt\<close>: a patch that carries another value
  for the field replaces it.
\<close>

theorem updateLead_createdAt_counterexample:
  "obj_get ([ann, bob] ! 0) ''id'' = JStr ''a'' \<and>
   obj_get ([ann, bob] ! 0) ''createdAt'' = JNum 5 \<and>
   obj_get (updateLead ''a'' [(''createdAt'', JNum 0)] 99 [ann, bob] ! 0) ''createdAt'' = JNum 0"
  by (simp add: updateLead_def spread_into_def obj_get_def ann_def bob_def)

end
